theory Spec2Isabelle
  imports Main "HOL-Library.Word"
begin

section \<open>Machine types\<close>

text \<open>
  The service is a Go program. A Go \<open>byte\<close> is an 8-bit word, \<open>uint32\<close> a 32-bit
  word and \<open>int64\<close> a 64-bit word. Go's \<open>int\<close> is taken at its width on the 64-bit
  platforms the daemon is built for: a 64-bit two's-complement word whose \<open>+\<close>, \<open>-\<close>
  and \<open>*\<close> wrap around and whose comparisons are the signed ones (\<open><s\<close>, \<open>\<le>s\<close>).
\<close>

type_synonym byte = "8 word"
type_synonym uint32 = "32 word"
type_synonym int64 = "64 word"
type_synonym go_int = "64 word"

section \<open>Fee controller (attestfees.go)\<close>

definition DefaultMinFee :: go_int where "DefaultMinFee = 10"
definition DefaultMaxFee :: go_int where "DefaultMaxFee = 100"
definition DefaultFeeIncrement :: go_int where "DefaultFeeIncrement = 5"
definition DefaultBestFeeType :: string where "DefaultBestFeeType = ''hourFee''"

record FeesConfig =
  MinFee :: go_int
  MaxFee :: go_int
  FeeIncrement :: go_int

record AttestFees =
  minFee :: go_int
  maxFee :: go_int
  feeIncrement :: go_int
  currentFee :: go_int

text \<open>
  What one query of the fee API gives: the GET fails, the body does not decode, or it
  decodes to a JSON object. The object maps a fee type to the value \<open>int(fee)\<close> of its
  \<open>float64\<close> entry; the floating-point conversion itself is not modelled.
\<close>

datatype fee_api = RequestFailed | DecodingFailed | Decoded "string \<Rightarrow> go_int option"

definition getFeeFromAPI :: "fee_api \<Rightarrow> string \<Rightarrow> go_int" where
  "getFeeFromAPI api feeType =
     (case api of
        RequestFailed \<Rightarrow> - 1
      | DecodingFailed \<Rightarrow> - 1
      | Decoded respJson \<Rightarrow>
          (case respJson feeType of None \<Rightarrow> - 1 | Some fee \<Rightarrow> fee))"

text \<open>A variadic parameter is the list of the arguments passed.\<close>

definition getBestFee :: "fee_api \<Rightarrow> string list \<Rightarrow> go_int" where
  "getBestFee api customFeeType =
     (let feeType = (if length customFeeType > 0 then hd customFeeType else DefaultBestFeeType)
      in getFeeFromAPI api feeType)"

definition GetFee :: "AttestFees \<Rightarrow> go_int" where
  "GetFee a = currentFee a"

definition ResetFee :: "fee_api \<Rightarrow> bool list \<Rightarrow> AttestFees \<Rightarrow> AttestFees" where
  "ResetFee api useMinimum a =
     (let fee =
        (if length useMinimum > 0 \<and> hd useMinimum then minFee a
         else (let fee = getBestFee api [] in
               if fee <s minFee a then minFee a
               else if maxFee a <s fee then maxFee a
               else fee))
      in a\<lparr>currentFee := fee\<rparr>)"

definition BumpFee :: "AttestFees \<Rightarrow> AttestFees" where
  "BumpFee a =
     (let a1 = a\<lparr>currentFee := currentFee a + feeIncrement a\<rparr>
      in if maxFee a1 <s currentFee a1 then a1\<lparr>currentFee := maxFee a1\<rparr> else a1)"

definition NewAttestFees :: "fee_api \<Rightarrow> FeesConfig \<Rightarrow> AttestFees" where
  "NewAttestFees api feesConfig =
     (let minFee0 = (if 0 <s MinFee feesConfig \<and> MinFee feesConfig <s DefaultMaxFee
                     then MinFee feesConfig else DefaultMinFee);
          maxFee0 = (if 0 <s MaxFee feesConfig \<and> minFee0 <s MaxFee feesConfig
                        \<and> MaxFee feesConfig <s DefaultMaxFee
                     then MaxFee feesConfig else DefaultMaxFee);
          feeIncrement0 = (if 0 <s FeeIncrement feesConfig
                           then FeeIncrement feesConfig else DefaultFeeIncrement);
          attestFees = \<lparr>minFee = minFee0, maxFee = maxFee0,
                        feeIncrement = feeIncrement0, currentFee = 0\<rparr>
      in ResetFee api [] attestFees)"

text \<open>
  The calls a client of the controller can make after construction, each \<open>ResetFee\<close>
  with the answer the fee API gives at that moment.
\<close>

datatype fee_op = OpReset fee_api "bool list" | OpBump

fun run_fee_op :: "fee_op \<Rightarrow> AttestFees \<Rightarrow> AttestFees" where
  "run_fee_op (OpReset api useMinimum) a = ResetFee api useMinimum a"
| "run_fee_op OpBump a = BumpFee a"

fun run_fee_ops :: "fee_op list \<Rightarrow> AttestFees \<Rightarrow> AttestFees" where
  "run_fee_ops [] a = a"
| "run_fee_ops (x # xs) a = run_fee_ops xs (run_fee_op x a)"

text \<open>The limits the constructor establishes and no operation changes.\<close>

definition fee_limits_ok :: "AttestFees \<Rightarrow> bool" where
  "fee_limits_ok a \<longleftrightarrow> 0 <s minFee a \<and> minFee a <s maxFee a \<and> maxFee a \<le>s 100
     \<and> 0 <s feeIncrement a"

text \<open>The invariant of the specification.\<close>

definition fee_invariant :: "AttestFees \<Rightarrow> bool" where
  "fee_invariant a \<longleftrightarrow> minFee a \<le>s currentFee a \<and> currentFee a \<le>s maxFee a
     \<and> minFee a <s maxFee a"

text \<open>The clamp of the specification, on the signed values.\<close>

definition clamp :: "int \<Rightarrow> int \<Rightarrow> int \<Rightarrow> int" where
  "clamp lo hi x = max lo (min hi x)"

section \<open>Byte-list framing (attestsigner\_zmq.go)\<close>

fun SerializeLoop :: "byte list list \<Rightarrow> byte list \<Rightarrow> byte list" where
  "SerializeLoop [] serializedBytes = serializedBytes"
| "SerializeLoop (dataX # rest) serializedBytes =
     SerializeLoop rest ((serializedBytes @ [of_nat (length dataX)]) @ dataX)"

definition SerializeBytes :: "byte list list \<Rightarrow> byte list" where
  "SerializeBytes data = (if length data = 0 then [] else SerializeLoop data [])"

function UnserializeLoop :: "byte list \<Rightarrow> nat \<Rightarrow> byte list list \<Rightarrow> byte list list" where
  "UnserializeLoop data it dataList =
     (if it < length data then
        (let txSize = data ! it in
         if unat txSize + 1 + it > length data then dataList
         else UnserializeLoop data (it + (1 + unat txSize))
                (dataList @ [take (unat txSize) (drop (it + 1) data)]))
      else dataList)"
  by pat_completeness auto
termination
  by (relation "measure (\<lambda>(data, it, dataList). length data - it)") auto

declare UnserializeLoop.simps [simp del]

definition UnserializeBytes :: "byte list \<Rightarrow> byte list list" where
  "UnserializeBytes data = (if length data = 0 then [] else UnserializeLoop data 0 [])"

section \<open>Results of a Go call\<close>

text \<open>
  A Go function returns, or panics. A function of result type \<open>(T, error)\<close> is modelled
  with result \<open>failure + T\<close>: \<open>Inr v\<close> is the return of \<open>v\<close> with a nil error,
  \<open>Inl (ReturnedError e)\<close> the return of the zero value of \<open>T\<close> with the error \<open>e\<close>,
  and \<open>Inl (Panic p)\<close> a run-time panic.
\<close>

datatype gopanic = IndexOutOfRange | SliceBoundsOutOfRange | NilDereference | MakeLenOutOfRange

datatype failure = ReturnedError string | Panic gopanic

section \<open>Hashes and transactions (btcd's chainhash and wire packages)\<close>

text \<open>A \<open>chainhash.Hash\<close> is an array of 32 bytes; its zero value holds 32 zero bytes.\<close>

type_synonym hash = "byte list"

definition zero_hash :: hash where
  "zero_hash = replicate 32 0"

definition IsEqual :: "hash \<Rightarrow> hash \<Rightarrow> bool" where
  "IsEqual h target = (h = target)"

definition CloneBytes :: "hash \<Rightarrow> byte list" where
  "CloneBytes h = h"

record out_point =
  Hash :: hash
  Index :: uint32

record tx_in =
  PreviousOutPoint :: out_point
  SignatureScript :: "byte list"
  Sequence :: uint32

record tx_out =
  Value :: int64
  PkScript :: "byte list"

record msg_tx =
  Version :: "32 word"
  TxIn :: "tx_in list"
  TxOut :: "tx_out list"
  LockTime :: uint32

text \<open>
  The fields of btcjson's \<open>ListUnspentResult\<close>, \<open>TransactionInput\<close> and \<open>RawTxInput\<close>
  that the client reads or writes. \<open>Amount\<close> is a \<open>float64\<close> in bitcoin; its type is
  left open and the conversion to satoshi is a parameter (\<open>toAmount\<close> below).
\<close>

record 'f ListUnspentResult =
  TxID :: string
  Vout :: uint32
  Amount :: 'f

definition empty_ListUnspentResult :: "('f::zero) ListUnspentResult" where
  "empty_ListUnspentResult = \<lparr>TxID = [], Vout = 0, Amount = 0\<rparr>"

record TransactionInput =
  ti_Txid :: string
  ti_Vout :: uint32

record RawTxInput =
  rti_Txid :: string
  rti_Vout :: uint32
  rti_ScriptPubKey :: string
  rti_RedeemScript :: string

section \<open>The collaborators of the attest client\<close>

text \<open>
  The attest client calls the bitcoin node over RPC, the \<open>crypto\<close> package of the
  repository and library functions of btcd and of Go. None of them is part of the client;
  each is a parameter, collected in one record. A wallet key (\<open>btcutil.WIF\<close>) has type
  \<open>'k\<close>, a public key \<open>'p\<close>, an address \<open>'a\<close>.

  \<^item> \<open>CreateRawTransaction\<close>, \<open>GetRawTransaction\<close>, \<open>SignRawTransaction3\<close> and
    \<open>ListUnspent\<close> are the RPC calls; \<open>Inl e\<close> is the error the call returned.
  \<^item> \<open>TweakPrivKey\<close> gets the wallet key pointer (\<open>None\<close> is nil).
  \<^item> \<open>GetAddressFromPrivKey\<close> gives the address it returned (its error is discarded by
    the client), or the panic it raised.
  \<^item> \<open>toAmount x\<close> is \<open>btcutil.Amount(x * 100000000)\<close>, a floating-point product
    truncated to \<open>int64\<close>.
  \<^item> \<open>appendSpare xs ys\<close> holds the elements of the backing array of
    \<open>append(xs, ys...)\<close> between its length and its capacity: Go lets a slice
    expression reach up to the capacity.
\<close>

record ('k, 'p, 'a, 'f) collaborators =
  CreateRawTransaction :: "TransactionInput list \<Rightarrow> ('a \<times> int64) list \<Rightarrow> string + msg_tx"
  GetRawTransaction :: "hash \<Rightarrow> string + msg_tx"
  SignRawTransaction3 :: "msg_tx \<Rightarrow> RawTxInput list \<Rightarrow> string list \<Rightarrow> string + msg_tx"
  ListUnspent :: "string + 'f ListUnspentResult list"
  TweakPrivKey :: "'k option \<Rightarrow> byte list \<Rightarrow> failure + 'k"
  TweakPubKey :: "'p \<Rightarrow> byte list \<Rightarrow> 'p"
  CreateMultisig :: "'p list \<Rightarrow> go_int \<Rightarrow> 'a \<times> string"
  GetAddressFromPrivKey :: "'k option \<Rightarrow> gopanic + 'a"
  ParseScriptSig :: "byte list \<Rightarrow> byte list list \<times> byte list"
  CreateScriptSig :: "byte list list \<Rightarrow> byte list \<Rightarrow> byte list"
  HashString :: "hash \<Rightarrow> string"
  NewHashFromStr :: "string \<Rightarrow> string + hash"
  WIFString :: "'k \<Rightarrow> string"
  EncodeToString :: "byte list \<Rightarrow> string"
  DecodeString :: "string \<Rightarrow> byte list"
  SerializeSize :: "msg_tx \<Rightarrow> go_int"
  toAmount :: "'f \<Rightarrow> int64"
  appendSpare :: "byte list list \<Rightarrow> byte list list \<Rightarrow> byte list list"

section \<open>Attest client (attestclient.go)\<close>

record ('k, 'p) AttestClient =
  Fees :: AttestFees
  txid0 :: string
  script0 :: string
  pubkeys :: "'p list"
  numOfSigs :: go_int
  WalletPriv :: "'k option"

text \<open>
  The slice expression \<open>s[:n]\<close> on a slice with elements \<open>xs\<close> and the elements
  \<open>spare\<close> behind them in its backing array: it panics when \<open>n\<close> is negative or
  exceeds the capacity.
\<close>

definition slice_to :: "'x list \<Rightarrow> 'x list \<Rightarrow> go_int \<Rightarrow> failure + 'x list" where
  "slice_to xs spare n =
     (if sint n < 0 \<or> int (length xs + length spare) < sint n
      then Inl (Panic SliceBoundsOutOfRange)
      else Inr (take (nat (sint n)) (xs @ spare)))"

definition GetNextAttestationAddr ::
  "('k, 'p, 'a, 'f) collaborators \<Rightarrow> ('k, 'p) AttestClient \<Rightarrow> 'k option \<Rightarrow> hash
     \<Rightarrow> failure + ('a \<times> string)" where
  "GetNextAttestationAddr env w key h =
     (if length (pubkeys w) > 0 then
        (let hashBytes = CloneBytes h;
             tweakedPubs = map (\<lambda>pub. TweakPubKey env pub hashBytes) (pubkeys w)
         in Inr (CreateMultisig env tweakedPubs (numOfSigs w)))
      else
        (case GetAddressFromPrivKey env key of
           Inl p \<Rightarrow> Inl (Panic p)
         | Inr myAddr \<Rightarrow> Inr (myAddr, [])))"


text \<open>
  \<open>bumpAttestationFees\<close> changes the client's fee controller and the transaction it
  is given; the model returns both.
\<close>

definition bumpAttestationFees ::
  "('k, 'p, 'a, 'f) collaborators \<Rightarrow> ('k, 'p) AttestClient \<Rightarrow> msg_tx
     \<Rightarrow> failure + (('k, 'p) AttestClient \<times> msg_tx)" where
  "bumpAttestationFees env w msgtx =
     (case TxIn msgtx of
        [] \<Rightarrow> Inl (Panic IndexOutOfRange)
      | in0 # ins \<Rightarrow>
         (let msgtx1 = msgtx\<lparr>TxIn := in0\<lparr>SignatureScript := []\<rparr> # ins\<rparr>;
              prevFeePerByte = GetFee (Fees w);
              w1 = w\<lparr>Fees := BumpFee (Fees w)\<rparr>;
              feePerByteIncrement = GetFee (Fees w1) - prevFeePerByte;
              feeIncrement = feePerByteIncrement * SerializeSize env msgtx1
          in case TxOut msgtx1 of
               [] \<Rightarrow> Inl (Panic IndexOutOfRange)
             | out0 # outs \<Rightarrow>
                 Inr (w1, msgtx1\<lparr>TxOut := out0\<lparr>Value := Value out0 - feeIncrement\<rparr> # outs\<rparr>)))"

definition GetKeyFromHash ::
  "('k, 'p, 'a, 'f) collaborators \<Rightarrow> ('k, 'p) AttestClient \<Rightarrow> hash \<Rightarrow> failure + 'k" where
  "GetKeyFromHash env w h =
     (if \<not> IsEqual h zero_hash then
        (case TweakPrivKey env (WalletPriv w) (CloneBytes h) of
           Inl (Panic p) \<Rightarrow> Inl (Panic p)
         | Inl (ReturnedError e) \<Rightarrow> Inl (Panic NilDereference)
         | Inr tweakedKey \<Rightarrow> Inr tweakedKey)
      else
        (case WalletPriv w of
           None \<Rightarrow> Inl (Panic NilDereference)
         | Some k \<Rightarrow> Inr k))"

definition GetScriptFromHash ::
  "('k, 'p, 'a, 'f) collaborators \<Rightarrow> ('k, 'p) AttestClient \<Rightarrow> hash \<Rightarrow> failure + string" where
  "GetScriptFromHash env w h =
     (if \<not> IsEqual h zero_hash then
        (case GetNextAttestationAddr env w (WalletPriv w) h of
           Inl f \<Rightarrow> Inl f
         | Inr (addr, redeemScript) \<Rightarrow> Inr redeemScript)
      else Inr (script0 w))"

text \<open>\<open>SignTransaction\<close> returns the signed transaction and the redeem script.\<close>

definition SignTransaction ::
  "('k, 'p, 'a, 'f) collaborators \<Rightarrow> ('k, 'p) AttestClient \<Rightarrow> hash \<Rightarrow> msg_tx
     \<Rightarrow> failure + (msg_tx \<times> string)" where
  "SignTransaction env w h msgTx =
     (case GetKeyFromHash env w h of
        Inl f \<Rightarrow> Inl f
      | Inr key \<Rightarrow>
     (case GetScriptFromHash env w h of
        Inl f \<Rightarrow> Inl f
      | Inr redeemScript \<Rightarrow>
     (case TxIn msgTx of
        [] \<Rightarrow> Inl (Panic IndexOutOfRange)
      | in0 # ins \<Rightarrow>
     (let prevTxId = Hash (PreviousOutPoint in0)
      in case GetRawTransaction env prevTxId of
           Inl errRaw \<Rightarrow> Inl (ReturnedError errRaw)
         | Inr prevTx \<Rightarrow>
     (case TxOut prevTx of
        [] \<Rightarrow> Inl (Panic IndexOutOfRange)
      | out0 # outs \<Rightarrow>
     (let rawTxInput = \<lparr>rti_Txid = HashString env prevTxId, rti_Vout = 0,
                         rti_ScriptPubKey = EncodeToString env (PkScript out0),
                         rti_RedeemScript = redeemScript\<rparr>
      in case SignRawTransaction3 env msgTx [rawTxInput] [WIFString env key] of
           Inl errSign \<Rightarrow> Inl (ReturnedError errSign)
         | Inr signedMsgTx \<Rightarrow> Inr (signedMsgTx, redeemScript)))))))"

text \<open>The assignment \<open>tx.TxIn[0].SignatureScript = s\<close>.\<close>

definition set_SignatureScript0 :: "msg_tx \<Rightarrow> byte list \<Rightarrow> failure + msg_tx" where
  "set_SignatureScript0 tx s =
     (case TxIn tx of
        [] \<Rightarrow> Inl (Panic IndexOutOfRange)
      | in0 # ins \<Rightarrow> Inr (tx\<lparr>TxIn := in0\<lparr>SignatureScript := s\<rparr> # ins\<rparr>))"

text \<open>The part of \<open>signAttestation\<close> after the local signing: the multisig case.\<close>

definition combineSigs ::
  "('k, 'p, 'a, 'f) collaborators \<Rightarrow> ('k, 'p) AttestClient \<Rightarrow> msg_tx \<Rightarrow> string
     \<Rightarrow> byte list list \<Rightarrow> failure + msg_tx" where
  "combineSigs env w signedMsgTx redeemScript sigs =
     (if redeemScript \<noteq> [] then
        (case TxIn signedMsgTx of
           [] \<Rightarrow> Inl (Panic IndexOutOfRange)
         | in0 # ins \<Rightarrow>
            (case ParseScriptSig env (SignatureScript in0) of (mySigs, script) \<Rightarrow>
               if length mySigs > 0 \<and> length script > 0
                    \<and> EncodeToString env script = redeemScript then
                 (let combinedSigs = mySigs @ sigs
                  in case slice_to combinedSigs (appendSpare env mySigs sigs) (numOfSigs w) of
                       Inl f \<Rightarrow> Inl f
                     | Inr firstSigs \<Rightarrow>
                         set_SignatureScript0 signedMsgTx (CreateScriptSig env firstSigs script))
               else if numOfSigs w \<le>s word_of_nat (length sigs) then
                 (let redeemScriptBytes = DecodeString env redeemScript
                  in case slice_to sigs [] (numOfSigs w) of
                       Inl f \<Rightarrow> Inl f
                     | Inr firstSigs \<Rightarrow>
                         set_SignatureScript0 signedMsgTx
                           (CreateScriptSig env firstSigs redeemScriptBytes))
               else Inr signedMsgTx))
      else Inr signedMsgTx)"

definition signAttestation ::
  "('k, 'p, 'a, 'f) collaborators \<Rightarrow> ('k, 'p) AttestClient \<Rightarrow> msg_tx \<Rightarrow> byte list list \<Rightarrow> hash
     \<Rightarrow> failure + msg_tx" where
  "signAttestation env w msgtx sigs h =
     (case GetScriptFromHash env w h of
        Inl f \<Rightarrow> Inl f
      | Inr redeemScript0 \<Rightarrow>
         (if WalletPriv w \<noteq> None then
            (case SignTransaction env w h msgtx of
               Inl f \<Rightarrow> Inl f
             | Inr (signedMsgTx, redeemScript) \<Rightarrow>
                 combineSigs env w signedMsgTx redeemScript sigs)
          else combineSigs env w msgtx redeemScript0 sigs))"

subsection \<open>The subchain walk\<close>

text \<open>
  \<open>verifyTxOnSubchain\<close> recurses with no bound on the depth, so on a history that
  never reaches the genesis transaction and never fails to fetch it does not return:
  the model gives \<open>None\<close> there.
\<close>

partial_function (option) verifyTxOnSubchain ::
  "('k, 'p, 'a, 'f) collaborators \<Rightarrow> ('k, 'p) AttestClient \<Rightarrow> hash \<Rightarrow> (failure + bool) option"
where
  "verifyTxOnSubchain env w txid =
     (if HashString env txid = txid0 w then Some (Inr True)
      else (case GetRawTransaction env txid of
              Inl err \<Rightarrow> Some (Inr False)
            | Inr txraw \<Rightarrow>
               (case TxIn txraw of
                  [] \<Rightarrow> Some (Inl (Panic IndexOutOfRange))
                | in0 # ins \<Rightarrow> verifyTxOnSubchain env w (Hash (PreviousOutPoint in0)))))"

text \<open>
  The loop of \<open>findLastUnspent\<close> over the unspent outputs. The error of
  \<open>NewHashFromStr\<close> is discarded and the hash pointer, nil on an error, dereferenced.
\<close>

fun findLastUnspentLoop ::
  "('k, 'p, 'a, 'f::zero) collaborators \<Rightarrow> ('k, 'p) AttestClient \<Rightarrow> 'f ListUnspentResult list
     \<Rightarrow> (failure + bool \<times> 'f ListUnspentResult) option" where
  "findLastUnspentLoop env w [] = Some (Inr (False, empty_ListUnspentResult))"
| "findLastUnspentLoop env w (vout # rest) =
     (case NewHashFromStr env (TxID vout) of
        Inl e \<Rightarrow> Some (Inl (Panic NilDereference))
      | Inr txhash \<Rightarrow>
         (case verifyTxOnSubchain env w txhash of
            None \<Rightarrow> None
          | Some (Inl f) \<Rightarrow> Some (Inl f)
          | Some (Inr onSubchain) \<Rightarrow>
              if onSubchain then Some (Inr (True, vout))
              else findLastUnspentLoop env w rest))"

definition findLastUnspent ::
  "('k, 'p, 'a, 'f::zero) collaborators \<Rightarrow> ('k, 'p) AttestClient
     \<Rightarrow> (failure + bool \<times> 'f ListUnspentResult) option" where
  "findLastUnspent env w =
     (case ListUnspent env of
        Inl err \<Rightarrow> Some (Inl (ReturnedError err))
      | Inr unspent \<Rightarrow>
          if length unspent > 0 then findLastUnspentLoop env w unspent
          else Some (Inr (False, empty_ListUnspentResult)))"

text \<open>
  The walk in the words of the specification: the txid is the genesis txid, or its
  transaction can be fetched and the previous-outpoint txid of its first input walks
  back to genesis.
\<close>

inductive on_subchain ::
  "('k, 'p, 'a, 'f) collaborators \<Rightarrow> ('k, 'p) AttestClient \<Rightarrow> hash \<Rightarrow> bool"
  for env w where
  genesis: "HashString env txid = txid0 w \<Longrightarrow> on_subchain env w txid"
| previous: "HashString env txid \<noteq> txid0 w \<Longrightarrow> GetRawTransaction env txid = Inr txraw
     \<Longrightarrow> TxIn txraw = in0 # ins \<Longrightarrow> on_subchain env w (Hash (PreviousOutPoint in0))
     \<Longrightarrow> on_subchain env w txid"

text \<open>The walk ends at a transaction, not the genesis one, that cannot be fetched.\<close>

inductive walk_fails ::
  "('k, 'p, 'a, 'f) collaborators \<Rightarrow> ('k, 'p) AttestClient \<Rightarrow> hash \<Rightarrow> bool"
  for env w where
  fetch_failed: "HashString env txid \<noteq> txid0 w \<Longrightarrow> GetRawTransaction env txid = Inl err
     \<Longrightarrow> walk_fails env w txid"
| previous_fails: "HashString env txid \<noteq> txid0 w \<Longrightarrow> GetRawTransaction env txid = Inr txraw
     \<Longrightarrow> TxIn txraw = in0 # ins \<Longrightarrow> walk_fails env w (Hash (PreviousOutPoint in0))
     \<Longrightarrow> walk_fails env w txid"

section \<open>Attestation server (server.go)\<close>

text \<open>
  Modelled from the spec: the \<open>ClientCommitment\<close> struct of the \<open>models\<close> package,
  which is not part of the sources at hand. A stored client commitment is a commitment
  hash with the position of its client; the client reads the fields \<open>Commitment\<close> and
  \<open>ClientPosition\<close>, an integer.
\<close>

record ClientCommitment =
  Commitment :: hash
  ClientPosition :: int

text \<open>
  The server reads the record store through the \<open>Db\<close> interface and builds commitments
  with \<open>models.NewCommitment\<close>; both are parameters, \<open>'c\<close> the type of a
  \<open>Commitment\<close>.
\<close>

record 'c server_collaborators =
  getLatestAttestationMerkleRoot :: "bool \<Rightarrow> string + string"
  getClientCommitments :: "string + ClientCommitment list"
  NewCommitment :: "hash list \<Rightarrow> string + 'c"
  HashFromStr :: "string \<Rightarrow> string + hash"

definition GetLatestAttestationCommitmentHash ::
  "'c server_collaborators \<Rightarrow> bool list \<Rightarrow> failure + hash" where
  "GetLatestAttestationCommitmentHash s confirmed =
     (let confirmedParam = (if length confirmed > 0 then hd confirmed else True)
      in case getLatestAttestationMerkleRoot s confirmedParam of
           Inl rootErr \<Rightarrow> Inl (ReturnedError rootErr)
         | Inr merkleRoot \<Rightarrow>
             if merkleRoot = [] then Inr zero_hash
             else (case HashFromStr s merkleRoot of
                     Inl errHash \<Rightarrow> Inl (ReturnedError errHash)
                   | Inr commitmentHash \<Rightarrow> Inr commitmentHash))"

text \<open>The loop \<open>commitmentHashes[c.ClientPosition] = c.Commitment\<close> over the results.\<close>

fun setCommitments :: "ClientCommitment list \<Rightarrow> hash list \<Rightarrow> failure + hash list" where
  "setCommitments [] commitmentHashes = Inr commitmentHashes"
| "setCommitments (c # rest) commitmentHashes =
     (if ClientPosition c < 0 \<or> int (length commitmentHashes) \<le> ClientPosition c
      then Inl (Panic IndexOutOfRange)
      else setCommitments rest (commitmentHashes[nat (ClientPosition c) := Commitment c]))"

definition clientCommitmentHashes :: "ClientCommitment list \<Rightarrow> failure + hash list" where
  "clientCommitmentHashes latestCommitments =
     (if length latestCommitments > 0 then
        (let n = ClientPosition (last latestCommitments) + 1
         in if n < 0 then Inl (Panic MakeLenOutOfRange)
            else setCommitments latestCommitments (replicate (nat n) zero_hash))
      else Inr [])"

definition GetClientCommitment :: "'c server_collaborators \<Rightarrow> failure + 'c" where
  "GetClientCommitment s =
     (case getClientCommitments s of
        Inl errLatest \<Rightarrow> Inl (ReturnedError errLatest)
      | Inr latestCommitments \<Rightarrow>
         (case clientCommitmentHashes latestCommitments of
            Inl f \<Rightarrow> Inl f
          | Inr commitmentHashes \<Rightarrow>
             (case NewCommitment s commitmentHashes of
                Inl errCommitment \<Rightarrow> Inl (ReturnedError errCommitment)
              | Inr commitment \<Rightarrow> Inr commitment)))"

section \<open>Notions used by the statements\<close>

text \<open>
  The query of the fee oracle fails: the request or the decoding fails, or the answer
  has no entry for the default fee type. \<open>getFeeFromAPI\<close> then gives \<open>-1\<close>.
\<close>

definition oracle_failed :: "fee_api \<Rightarrow> bool" where
  "oracle_failed api =
     (case api of
        RequestFailed \<Rightarrow> True
      | DecodingFailed \<Rightarrow> True
      | Decoded respJson \<Rightarrow> respJson DefaultBestFeeType = None)"

text \<open>An oracle that answers with one fee for the default fee type.\<close>

definition oracle_says :: "go_int \<Rightarrow> fee_api" where
  "oracle_says fee = Decoded (\<lambda>feeType. if feeType = DefaultBestFeeType then Some fee else None)"

text \<open>No bump of a fee within the limits can leave the range of \<open>int\<close>.\<close>

definition bump_cannot_overflow :: "AttestFees \<Rightarrow> bool" where
  "bump_cannot_overflow a \<longleftrightarrow> sint (maxFee a) + sint (feeIncrement a) < 2 ^ 63"

text \<open>The fee configuration of scenario S4 of the specification.\<close>

definition s4_config :: FeesConfig where
  "s4_config = \<lparr>MinFee = 5, MaxFee = 80, FeeIncrement = 5\<rparr>"

text \<open>A fee configuration with the largest increment an \<open>int\<close> holds.\<close>

definition overflow_config :: FeesConfig where
  "overflow_config = \<lparr>MinFee = 5, MaxFee = 80, FeeIncrement = 0x7FFFFFFFFFFFFFFF\<rparr>"

section \<open>A small instance\<close>

text \<open>
  Collaborators for running the client on concrete inputs. A wallet key and a public key
  are numbers, tweaking adds the bytes of the tweak, a txid is written with the digits
  0 and 1, one byte each. The genesis transaction is \<open>00\<close>; transaction \<open>01\<close> spends
  it and \<open>10\<close> spends \<open>01\<close>; the node knows no other transaction. A signature script
  is the byte 0 followed by the signatures and the redeem script, each behind its length
  byte. The redeem script of the 2-of-3 client is written \<open>2kkk\<close>, its bytes are
  \<open>52 21 21 21\<close>.
\<close>

definition demo_HashString :: "hash \<Rightarrow> string" where
  "demo_HashString h = map (\<lambda>b. if b = 0 then CHR ''0'' else CHR ''1'') h"

definition demo_NewHashFromStr :: "string \<Rightarrow> string + hash" where
  "demo_NewHashFromStr s =
     (if s = [] then Inl ''invalid hash'' else Inr (map (\<lambda>c. if c = CHR ''0'' then 0 else 1) s))"

definition demo_spend :: "hash \<Rightarrow> byte list \<Rightarrow> int64 \<Rightarrow> msg_tx" where
  "demo_spend prev script v =
     \<lparr>Version = 2,
      TxIn = [\<lparr>PreviousOutPoint = \<lparr>Hash = prev, Index = 0\<rparr>, SignatureScript = script,
               Sequence = 0xFFFFFFFD\<rparr>],
      TxOut = [\<lparr>Value = v, PkScript = [0xA9, 0x14, 0x87]\<rparr>],
      LockTime = 0\<rparr>"

definition demo_GetRawTransaction :: "hash \<Rightarrow> string + msg_tx" where
  "demo_GetRawTransaction txid =
     (if txid = [0, 1] then Inr (demo_spend [0, 0] [0] 5000)
      else if txid = [1, 0] then Inr (demo_spend [0, 1] [0] 4000)
      else Inl ''No such mempool or blockchain transaction'')"

definition demo_CreateRawTransaction ::
  "TransactionInput list \<Rightarrow> (string \<times> int64) list \<Rightarrow> string + msg_tx" where
  "demo_CreateRawTransaction inputs amounts =
     Inr \<lparr>Version = 2,
          TxIn = map (\<lambda>i. \<lparr>PreviousOutPoint =
                               \<lparr>Hash = map (\<lambda>c. if c = CHR ''0'' then 0 else 1) (ti_Txid i),
                                Index = ti_Vout i\<rparr>,
                             SignatureScript = [], Sequence = 0xFFFFFFFF\<rparr>) inputs,
          TxOut = map (\<lambda>(a, v). \<lparr>Value = v, PkScript = [0xA9, 0x14, 0x87]\<rparr>) amounts,
          LockTime = 0\<rparr>"

definition demo_CreateScriptSig :: "byte list list \<Rightarrow> byte list \<Rightarrow> byte list" where
  "demo_CreateScriptSig sigs script = 0 # SerializeBytes (sigs @ [script])"

definition demo_ParseScriptSig :: "byte list \<Rightarrow> byte list list \<times> byte list" where
  "demo_ParseScriptSig scriptSig =
     (if length scriptSig \<le> 1 then ([], [])
      else (let chunks = UnserializeBytes (tl scriptSig) in (butlast chunks, last chunks)))"

definition demo_EncodeToString :: "byte list \<Rightarrow> string" where
  "demo_EncodeToString bs = map (\<lambda>b. if b = 0x52 then CHR ''2'' else CHR ''k'') bs"

definition demo_DecodeString :: "string \<Rightarrow> byte list" where
  "demo_DecodeString s = map (\<lambda>c. if c = CHR ''2'' then 0x52 else 0x21) s"

definition demo_SignRawTransaction3 ::
  "msg_tx \<Rightarrow> RawTxInput list \<Rightarrow> string list \<Rightarrow> string + msg_tx" where
  "demo_SignRawTransaction3 tx inputs keys =
     (case (TxIn tx, inputs) of
        (in0 # ins, i # _) \<Rightarrow>
          Inr (tx\<lparr>TxIn := in0\<lparr>SignatureScript :=
                 demo_CreateScriptSig (map (\<lambda>k. [0x30, of_nat (length k)]) keys)
                   (demo_DecodeString (rti_RedeemScript i))\<rparr> # ins\<rparr>)
      | _ \<Rightarrow> Inl ''TX decode failed'')"

definition demo_SerializeSize :: "msg_tx \<Rightarrow> go_int" where
  "demo_SerializeSize tx =
     of_nat (10 + sum_list (map (\<lambda>i. 41 + length (SignatureScript i)) (TxIn tx))
                + sum_list (map (\<lambda>out. 9 + length (PkScript out)) (TxOut tx)))"

definition demo_env :: "(nat, nat, string, nat) collaborators" where
  "demo_env =
     \<lparr>CreateRawTransaction = demo_CreateRawTransaction,
      GetRawTransaction = demo_GetRawTransaction,
      SignRawTransaction3 = demo_SignRawTransaction3,
      ListUnspent = Inr [\<lparr>TxID = ''11'', Vout = 0, Amount = 7\<rparr>,
                         \<lparr>TxID = ''10'', Vout = 0, Amount = 3\<rparr>],
      TweakPrivKey = (\<lambda>key tweak. case key of None \<Rightarrow> Inl (Panic NilDereference)
                                   | Some k \<Rightarrow> Inr (k + sum_list (map unat tweak))),
      TweakPubKey = (\<lambda>pub tweak. pub + sum_list (map unat tweak)),
      CreateMultisig = (\<lambda>pubs m. (''2N'', (if m = 2 then CHR ''2'' else CHR ''m'')
                                           # map (\<lambda>p. CHR ''k'') pubs)),
      GetAddressFromPrivKey = (\<lambda>key. case key of None \<Rightarrow> Inl NilDereference
                                   | Some k \<Rightarrow> Inr ''m''),
      ParseScriptSig = demo_ParseScriptSig,
      CreateScriptSig = demo_CreateScriptSig,
      HashString = demo_HashString,
      NewHashFromStr = demo_NewHashFromStr,
      WIFString = (\<lambda>k. replicate k CHR ''c''),
      EncodeToString = demo_EncodeToString,
      DecodeString = demo_DecodeString,
      SerializeSize = demo_SerializeSize,
      toAmount = (\<lambda>x. 100000000 * of_nat x),
      appendSpare = (\<lambda>xs ys. [])\<rparr>"

definition demo_client :: "nat option \<Rightarrow> (nat, nat) AttestClient" where
  "demo_client key =
     \<lparr>Fees = \<lparr>minFee = 5, maxFee = 80, feeIncrement = 5, currentFee = 10\<rparr>,
      txid0 = ''00'', script0 = ''2kkk'', pubkeys = [11, 12, 13], numOfSigs = 2,
      WalletPriv = key\<rparr>"
text \<open>
  A record store with the given answer for the latest merkle root and with commitments
  of the clients at positions 0 and 2; a commitment is the list of its leaves.
\<close>

definition demo_server :: "(bool \<Rightarrow> string + string) \<Rightarrow> (hash list) server_collaborators" where
  "demo_server latest =
     \<lparr>getLatestAttestationMerkleRoot = latest,
      getClientCommitments = Inr [\<lparr>Commitment = [0xA0], ClientPosition = 0\<rparr>,
                                  \<lparr>Commitment = [0xA2], ClientPosition = 2\<rparr>],
      NewCommitment = (\<lambda>hs. if hs = [] then Inl ''List of commitments is empty'' else Inr hs),
      HashFromStr = demo_NewHashFromStr\<rparr>"

text \<open>
  The link from a transaction the node can fetch to the previous-outpoint txid of its
  first input. On a blockchain it is well-founded: no transaction spends itself, directly
  or through others.
\<close>

definition prev_link :: "('k, 'p, 'a, 'f) collaborators \<Rightarrow> (hash \<times> hash) set" where
  "prev_link env =
     {(prev, txid). \<exists>txraw in0 ins. GetRawTransaction env txid = Inr txraw
        \<and> TxIn txraw = in0 # ins \<and> prev = Hash (PreviousOutPoint in0)}"

section \<open>Byte-list framing: properties\<close>

lemma SerializeLoop_concat:
  "SerializeLoop xs acc = acc @ concat (map (\<lambda>x. of_nat (length x) # x) xs)"
  by (induction xs arbitrary: acc) simp_all

lemma UnserializeLoop_chunk:
  assumes "unat n = length x"
  shows "UnserializeLoop (pre @ n # x @ rest) (length pre) acc =
         UnserializeLoop (pre @ n # x @ rest) (length pre + (1 + length x)) (acc @ [x])"
  by (subst UnserializeLoop.simps) (simp add: assms Let_def nth_append)

lemma UnserializeLoop_frames:
  "\<forall>x\<in>set xs. length x \<le> 255 \<Longrightarrow>
   UnserializeLoop (pre @ concat (map (\<lambda>x. of_nat (length x) # x) xs)) (length pre) acc
     = acc @ xs"
proof (induction xs arbitrary: pre acc)
  case Nil
  show ?case by (subst UnserializeLoop.simps) simp
next
  case (Cons x xs)
  let ?n = "of_nat (length x) :: byte"
  let ?rest = "concat (map (\<lambda>x. of_nat (length x) # x) xs)"
  have un: "unat ?n = length x"
    using Cons.prems by (simp add: unat_of_nat)
  have "UnserializeLoop ((pre @ ?n # x) @ ?rest) (length (pre @ ?n # x)) (acc @ [x])
          = (acc @ [x]) @ xs"
    using Cons.prems by (intro Cons.IH) simp
  then show ?case
    using UnserializeLoop_chunk [OF un, of pre ?rest acc] by simp
qed

lemma Unserialize_Serialize:
  assumes "\<forall>x\<in>set xs. length x \<le> 255"
  shows "UnserializeBytes (SerializeBytes xs) = xs"
proof (cases xs)
  case Nil
  then show ?thesis by (simp add: UnserializeBytes_def SerializeBytes_def)
next
  case (Cons x rest)
  have "UnserializeLoop ([] @ concat (map (\<lambda>x. of_nat (length x) # x) xs))
          (length ([] :: byte list)) [] = [] @ xs"
    using assms by (rule UnserializeLoop_frames)
  then show ?thesis
    using Cons by (simp add: UnserializeBytes_def SerializeBytes_def SerializeLoop_concat)
qed

text \<open>
  C3. Unserializing the serialization of a list of chunks, each at most 255 bytes long,
  gives the list back; the empty list serializes to the empty payload; and the chunks
  \<open>[0xAA]\<close>, \<open>[0xBB, 0xCC]\<close> serialize to \<open>01 AA 02 BB CC\<close>.
\<close>

theorem framing_roundtrip:
  "((\<forall>x\<in>set xs. length x \<le> 255) \<longrightarrow> UnserializeBytes (SerializeBytes xs) = xs)
   \<and> SerializeBytes [] = []
   \<and> SerializeBytes [[0xAA], [0xBB, 0xCC]] = [0x01, 0xAA, 0x02, 0xBB, 0xCC]"
  by (simp add: Unserialize_Serialize) (simp add: SerializeBytes_def)

theorem framing_roundtrip_witness:
  "UnserializeBytes [0x01, 0xAA, 0x02, 0xBB, 0xCC] = [[0xAA], [0xBB, 0xCC]]"
  using framing_roundtrip [of "[[0xAA], [0xBB, 0xCC]]"] by (simp add: SerializeBytes_def)

section \<open>Fee controller: properties\<close>

lemma getBestFee_failed: "oracle_failed api \<Longrightarrow> getBestFee api [] = - 1"
  by (cases api) (simp_all add: oracle_failed_def getBestFee_def getFeeFromAPI_def)

lemma getBestFee_says: "getBestFee (oracle_says fee) [] = fee"
  by (simp add: oracle_says_def getBestFee_def getFeeFromAPI_def)

lemma fee_limits_ok_New: "fee_limits_ok (NewAttestFees api cfg)"
  by (simp add: NewAttestFees_def ResetFee_def fee_limits_ok_def Let_def
      DefaultMinFee_def DefaultMaxFee_def DefaultFeeIncrement_def word_sless_alt word_sle_eq)

lemma fee_limits_ok_ResetFee: "fee_limits_ok a \<Longrightarrow> fee_limits_ok (ResetFee api um a)"
  by (simp add: ResetFee_def fee_limits_ok_def Let_def)

lemma fee_limits_ok_BumpFee: "fee_limits_ok a \<Longrightarrow> fee_limits_ok (BumpFee a)"
  by (simp add: BumpFee_def fee_limits_ok_def Let_def)

lemma fee_limits_ok_run: "fee_limits_ok a \<Longrightarrow> fee_limits_ok (run_fee_ops ops a)"
proof (induction ops arbitrary: a)
  case Nil
  then show ?case by simp
next
  case (Cons x xs)
  have "fee_limits_ok (run_fee_op x a)"
    using Cons.prems by (cases x) (simp_all add: fee_limits_ok_ResetFee fee_limits_ok_BumpFee)
  then show ?case using Cons.IH by simp
qed

lemma ResetFee_useMinimum:
  "useMinimum \<noteq> [] \<and> hd useMinimum \<Longrightarrow>
   ResetFee api useMinimum a = a\<lparr>currentFee := minFee a\<rparr>"
  by (simp add: ResetFee_def)

lemma ResetFee_oracle:
  assumes "fee_limits_ok a" and "\<not> (useMinimum \<noteq> [] \<and> hd useMinimum)"
  shows "\<exists>fee. ResetFee api useMinimum a = a\<lparr>currentFee := fee\<rparr>
          \<and> sint fee = clamp (sint (minFee a)) (sint (maxFee a)) (sint (getBestFee api []))"
  using assms
  by (auto simp add: ResetFee_def fee_limits_ok_def Let_def clamp_def word_sless_alt word_sle_eq)

lemma ResetFee_oracle_failed:
  assumes "fee_limits_ok a" and "\<not> (useMinimum \<noteq> [] \<and> hd useMinimum)" and "oracle_failed api"
  shows "ResetFee api useMinimum a = a\<lparr>currentFee := minFee a\<rparr>"
  using assms
  by (auto simp add: ResetFee_def fee_limits_ok_def Let_def getBestFee_failed
      word_sless_alt word_sle_eq)

lemma BumpFee_min:
  "\<exists>fee. BumpFee a = a\<lparr>currentFee := fee\<rparr>
     \<and> sint fee = min (sint (currentFee a + feeIncrement a)) (sint (maxFee a))"
  by (auto simp add: BumpFee_def Let_def word_sless_alt)

lemma sint_add_no_overflow:
  fixes a b :: "64 word"
  assumes "- (2 ^ 63) \<le> sint a + sint b" and "sint a + sint b < 2 ^ 63"
  shows "sint (a + b) = sint a + sint b"
  using assms by (simp add: sint_word_add signed_take_bit_int_eq_self)

lemma BumpFee_min_int:
  assumes "fee_limits_ok a" and "sint (currentFee a) + sint (feeIncrement a) < 2 ^ 63"
  shows "\<exists>fee. BumpFee a = a\<lparr>currentFee := fee\<rparr>
           \<and> sint fee = min (sint (currentFee a) + sint (feeIncrement a)) (sint (maxFee a))"
proof -
  have "- (2 ^ 63) \<le> sint (currentFee a)"
    using sint_ge [of "currentFee a"] by simp
  moreover have "0 < sint (feeIncrement a)"
    using assms(1) by (simp add: fee_limits_ok_def word_sless_alt)
  ultimately have "- (2 ^ 63) \<le> sint (currentFee a) + sint (feeIncrement a)"
    by linarith
  then have "sint (currentFee a + feeIncrement a) = sint (currentFee a) + sint (feeIncrement a)"
    using assms(2) by (rule sint_add_no_overflow)
  then show ?thesis
    using BumpFee_min [of a] by simp
qed

text \<open>
  What the two operations do on every state of the controller (the state
  \<open>NewAttestFees\<close> builds, after any calls of \<open>ResetFee\<close> and \<open>BumpFee\<close>):
  \<open>ResetFee\<close> with \<open>useMinimum\<close> true sets the current fee to the minimum fee;
  \<open>ResetFee\<close> without it sets the current fee to the oracle's fee clamped into the
  range from minimum to maximum fee, and to the minimum fee whenever the oracle query
  fails; and, as long as the sum of the current fee and the increment is within the range
  of \<open>int\<close>, \<open>BumpFee\<close> sets the current fee to the lesser of that sum and the maximum
  fee. No other field changes.
\<close>

lemma ResetFee_BumpFee_without_overflow:
  "(let a = run_fee_ops ops (NewAttestFees api0 cfg) in
     (useMinimum \<noteq> [] \<and> hd useMinimum \<longrightarrow>
        ResetFee api useMinimum a = a\<lparr>currentFee := minFee a\<rparr>)
   \<and> (\<not> (useMinimum \<noteq> [] \<and> hd useMinimum) \<longrightarrow>
        (\<exists>fee. ResetFee api useMinimum a = a\<lparr>currentFee := fee\<rparr>
           \<and> sint fee = clamp (sint (minFee a)) (sint (maxFee a)) (sint (getBestFee api []))))
   \<and> (\<not> (useMinimum \<noteq> [] \<and> hd useMinimum) \<and> oracle_failed api \<longrightarrow>
        ResetFee api useMinimum a = a\<lparr>currentFee := minFee a\<rparr>)
   \<and> (sint (currentFee a) + sint (feeIncrement a) < 2 ^ 63 \<longrightarrow>
        (\<exists>fee. BumpFee a = a\<lparr>currentFee := fee\<rparr>
           \<and> sint fee = min (sint (currentFee a) + sint (feeIncrement a)) (sint (maxFee a)))))"
proof -
  have ok: "fee_limits_ok (run_fee_ops ops (NewAttestFees api0 cfg))"
    by (rule fee_limits_ok_run [OF fee_limits_ok_New])
  show ?thesis
    unfolding Let_def
    using ResetFee_useMinimum [of useMinimum api] ResetFee_oracle [OF ok, of useMinimum api]
      ResetFee_oracle_failed [OF ok, of useMinimum api] BumpFee_min_int [OF ok]
    by blast
qed

lemma s4_two_bumps:
  "run_fee_ops [OpBump, OpBump] (NewAttestFees (oracle_says 3) s4_config)
     = \<lparr>minFee = 5, maxFee = 80, feeIncrement = 5, currentFee = 15\<rparr>"
  by (simp add: s4_config_def NewAttestFees_def ResetFee_def BumpFee_def getBestFee_says
      DefaultMaxFee_def Let_def word_sless_alt word_sle_eq)

text \<open>
  Scenario S4: with the limits 5 and 80 and the increment 5, the oracle says 3 and two
  bumps follow, which gives 15; then a reset with the minimum gives 5, a reset when the
  oracle says 200 gives 80, a reset when the oracle fails gives 5, and a bump gives 20.
\<close>

lemma scenario_S4:
  "ResetFee (oracle_says 200) [True]
       (run_fee_ops [OpBump, OpBump] (NewAttestFees (oracle_says 3) s4_config))
     = \<lparr>minFee = 5, maxFee = 80, feeIncrement = 5, currentFee = 5\<rparr>
   \<and> sint (currentFee (ResetFee (oracle_says 200) []
        (run_fee_ops [OpBump, OpBump] (NewAttestFees (oracle_says 3) s4_config)))) = 80
   \<and> ResetFee RequestFailed []
       (run_fee_ops [OpBump, OpBump] (NewAttestFees (oracle_says 3) s4_config))
     = \<lparr>minFee = 5, maxFee = 80, feeIncrement = 5, currentFee = 5\<rparr>
   \<and> sint (currentFee (BumpFee
        (run_fee_ops [OpBump, OpBump] (NewAttestFees (oracle_says 3) s4_config)))) = 20"
proof -
  let ?a = "run_fee_ops [OpBump, OpBump] (NewAttestFees (oracle_says 3) s4_config)"
  have 1: "ResetFee (oracle_says 200) [True] ?a = ?a\<lparr>currentFee := minFee ?a\<rparr>"
    using ResetFee_BumpFee_without_overflow [where useMinimum = "[True]"
      and api = "oracle_says 200" and ops = "[OpBump, OpBump]"
      and ?api0.0 = "oracle_says 3" and cfg = s4_config]
    unfolding Let_def by simp
  have 2: "sint (currentFee (ResetFee (oracle_says 200) [] ?a))
            = clamp (sint (minFee ?a)) (sint (maxFee ?a)) (sint (getBestFee (oracle_says 200) []))"
    using ResetFee_BumpFee_without_overflow [where useMinimum = "[]"
      and api = "oracle_says 200" and ops = "[OpBump, OpBump]"
      and ?api0.0 = "oracle_says 3" and cfg = s4_config]
    unfolding Let_def by auto
  have 3: "ResetFee RequestFailed [] ?a = ?a\<lparr>currentFee := minFee ?a\<rparr>"
    using ResetFee_BumpFee_without_overflow [where useMinimum = "[]"
      and api = RequestFailed and ops = "[OpBump, OpBump]"
      and ?api0.0 = "oracle_says 3" and cfg = s4_config]
    unfolding Let_def by (simp add: oracle_failed_def)
  have "sint (currentFee ?a) + sint (feeIncrement ?a) < 2 ^ 63"
    unfolding s4_two_bumps by simp
  then have 4: "sint (currentFee (BumpFee ?a))
            = min (sint (currentFee ?a) + sint (feeIncrement ?a)) (sint (maxFee ?a))"
    using ResetFee_BumpFee_without_overflow [where useMinimum = "[]"
      and api = RequestFailed and ops = "[OpBump, OpBump]"
      and ?api0.0 = "oracle_says 3" and cfg = s4_config]
    unfolding Let_def by auto
  show ?thesis
    unfolding 1 2 3 4 unfolding s4_two_bumps by (simp add: clamp_def getBestFee_says)
qed

text \<open>
  C4. \<open>ResetFee\<close> with \<open>useMinimum\<close> sets the current fee to the minimum fee, without
  it to the oracle's fee clamped into the range of the limits, and to the minimum fee
  when the oracle query fails; \<open>BumpFee\<close> sets the current fee to the lesser of
  \<open>currentFee + feeIncrement\<close> and the maximum fee. The constructor accepts every
  positive increment. With the limits 5 and 80 and the increment \<open>2^63 - 1\<close> it builds a
  state, within the limits, with the current fee 5: the lesser of
  \<open>5 + (2^63 - 1)\<close> and 80 is 80, but the sum in \<open>BumpFee\<close> wraps around and the
  current fee becomes \<open>-9223372036854775804\<close>.
\<close>

theorem BumpFee_overflow_not_min:
  "currentFee (NewAttestFees RequestFailed overflow_config) = 5
   \<and> feeIncrement (NewAttestFees RequestFailed overflow_config) = 0x7FFFFFFFFFFFFFFF
   \<and> maxFee (NewAttestFees RequestFailed overflow_config) = 80
   \<and> fee_invariant (NewAttestFees RequestFailed overflow_config)
   \<and> min (sint (currentFee (NewAttestFees RequestFailed overflow_config))
           + sint (feeIncrement (NewAttestFees RequestFailed overflow_config)))
          (sint (maxFee (NewAttestFees RequestFailed overflow_config))) = 80
   \<and> sint (currentFee (BumpFee (NewAttestFees RequestFailed overflow_config)))
       = - 9223372036854775804"
  by (simp add: overflow_config_def NewAttestFees_def ResetFee_def BumpFee_def getBestFee_def
      getFeeFromAPI_def DefaultMaxFee_def fee_invariant_def Let_def word_sless_alt word_sle_eq)

subsection \<open>The invariant\<close>

lemma bump_cannot_overflow_ResetFee:
  "bump_cannot_overflow (ResetFee api um a) = bump_cannot_overflow a"
  by (simp add: ResetFee_def bump_cannot_overflow_def Let_def)

lemma bump_cannot_overflow_BumpFee:
  "bump_cannot_overflow (BumpFee a) = bump_cannot_overflow a"
  by (simp add: BumpFee_def bump_cannot_overflow_def Let_def)

lemma bump_cannot_overflow_New:
  "sint (FeeIncrement cfg) < 2 ^ 63 - 100 \<Longrightarrow> bump_cannot_overflow (NewAttestFees api cfg)"
  by (simp add: NewAttestFees_def ResetFee_def bump_cannot_overflow_def Let_def
      DefaultMinFee_def DefaultMaxFee_def DefaultFeeIncrement_def word_sless_alt word_sle_eq)

lemma fee_invariant_ResetFee:
  assumes "fee_limits_ok a"
  shows "fee_invariant (ResetFee api um a)"
  using assms
  by (auto simp add: ResetFee_def fee_limits_ok_def fee_invariant_def Let_def
      word_sless_alt word_sle_eq)

lemma fee_invariant_BumpFee:
  assumes "fee_limits_ok a" and "fee_invariant a" and "bump_cannot_overflow a"
  shows "fee_invariant (BumpFee a)"
proof -
  have lo: "- (2 ^ 63) \<le> sint (currentFee a) + sint (feeIncrement a)"
    using assms by (simp add: fee_limits_ok_def fee_invariant_def word_sless_alt word_sle_eq)
  have hi: "sint (currentFee a) + sint (feeIncrement a) < 2 ^ 63"
    using assms
    by (simp add: fee_limits_ok_def fee_invariant_def bump_cannot_overflow_def
        word_sless_alt word_sle_eq)
  have "sint (currentFee a + feeIncrement a) = sint (currentFee a) + sint (feeIncrement a)"
    using lo hi by (rule sint_add_no_overflow)
  then show ?thesis
    using assms
    by (auto simp add: BumpFee_def fee_limits_ok_def fee_invariant_def Let_def
        word_sless_alt word_sle_eq)
qed

lemma fee_invariant_run:
  assumes "fee_limits_ok a" and "fee_invariant a" and "bump_cannot_overflow a"
  shows "fee_invariant (run_fee_ops ops a)"
  using assms
proof (induction ops arbitrary: a)
  case Nil
  then show ?case by simp
next
  case (Cons x xs)
  show ?case
  proof (cases x)
    case (OpReset api um)
    then show ?thesis
      using Cons.prems Cons.IH [of "ResetFee api um a"]
      by (simp add: fee_limits_ok_ResetFee fee_invariant_ResetFee bump_cannot_overflow_ResetFee)
  next
    case OpBump
    then show ?thesis
      using Cons.prems Cons.IH [of "BumpFee a"]
      by (simp add: fee_limits_ok_BumpFee fee_invariant_BumpFee bump_cannot_overflow_BumpFee)
  qed
qed

lemma fee_invariant_New: "fee_invariant (NewAttestFees api cfg)"
  by (auto simp add: NewAttestFees_def ResetFee_def fee_invariant_def Let_def
      DefaultMinFee_def DefaultMaxFee_def DefaultFeeIncrement_def word_sless_alt word_sle_eq)

text \<open>
  The invariant holds after construction and after every sequence of calls, as long as
  the configured increment leaves room for one bump below the largest \<open>int\<close>.
\<close>

lemma fee_invariant_without_overflow:
  assumes "sint (FeeIncrement cfg) < 2 ^ 63 - 100"
  shows "fee_invariant (run_fee_ops ops (NewAttestFees api cfg))"
  using fee_limits_ok_New fee_invariant_New bump_cannot_overflow_New [OF assms]
  by (rule fee_invariant_run)

text \<open>
  C5. After \<open>NewAttestFees\<close> and every sequence of \<open>ResetFee\<close> and \<open>BumpFee\<close>
  calls the fee state satisfies \<open>minFee \<le> currentFee \<le> maxFee\<close> with
  \<open>minFee < maxFee\<close>. The constructor accepts every positive increment, and with the
  increment \<open>2^63 - 1\<close> the sum in \<open>BumpFee\<close> wraps around to a negative value, which
  the comparison with the maximum fee lets through: one bump after construction leaves the
  current fee below the minimum fee.
\<close>

theorem BumpFee_overflow_breaks_invariant:
  "NewAttestFees RequestFailed overflow_config
      = \<lparr>minFee = 5, maxFee = 80, feeIncrement = 0x7FFFFFFFFFFFFFFF, currentFee = 5\<rparr>
   \<and> sint (currentFee (BumpFee (NewAttestFees RequestFailed overflow_config)))
      = - 9223372036854775804
   \<and> \<not> fee_invariant (run_fee_ops [OpBump] (NewAttestFees RequestFailed overflow_config))"
  by (simp add: overflow_config_def NewAttestFees_def ResetFee_def BumpFee_def getBestFee_def
      getFeeFromAPI_def DefaultMaxFee_def fee_invariant_def Let_def word_sless_alt word_sle_eq)

section \<open>Attest client: properties\<close>

lemmas demo_defs = demo_env_def demo_client_def demo_CreateRawTransaction_def
  demo_SerializeSize_def demo_GetRawTransaction_def demo_spend_def
  demo_SignRawTransaction3_def demo_CreateScriptSig_def demo_ParseScriptSig_def
  demo_EncodeToString_def demo_DecodeString_def demo_HashString_def demo_NewHashFromStr_def



text \<open>
  C6. On a transaction with an input and an output, \<open>bumpAttestationFees\<close> empties the
  signature script of the first input, bumps the fee controller of the client once, and
  lowers the value of the first output by the difference of the new and the old fee per
  byte times the serialized size (of the transaction with the emptied script). The
  previous outpoints and the sequence numbers of the inputs do not change, nor does
  anything else in the transaction.
\<close>

theorem bumpAttestationFees_effect:
  assumes "TxIn tx = in0 # ins" and "TxOut tx = out0 # outs"
  shows "\<exists>w' tx'. bumpAttestationFees env w tx = Inr (w', tx')
           \<and> w' = w\<lparr>Fees := BumpFee (Fees w)\<rparr>
           \<and> TxIn tx' = in0\<lparr>SignatureScript := []\<rparr> # ins
           \<and> TxOut tx' = out0\<lparr>Value := Value out0
                 - (GetFee (Fees w') - GetFee (Fees w))
                   * SerializeSize env (tx\<lparr>TxIn := in0\<lparr>SignatureScript := []\<rparr> # ins\<rparr>)\<rparr> # outs
           \<and> map PreviousOutPoint (TxIn tx') = map PreviousOutPoint (TxIn tx)
           \<and> map Sequence (TxIn tx') = map Sequence (TxIn tx)
           \<and> Version tx' = Version tx \<and> LockTime tx' = LockTime tx"
  using assms by (simp add: bumpAttestationFees_def Let_def)

text \<open>
  A signed transaction, of 63 bytes once its script is emptied, at the fee 10 bumped to
  15: the output loses 5 * 63 = 315.
\<close>

theorem bumpAttestationFees_effect_witness:
  "bumpAttestationFees demo_env (demo_client None)
       (demo_spend [1, 0] [0, 2, 0x30, 1, 4, 0x52, 0x21, 0x21, 0x21] 299999370)
     = Inr (demo_client None\<lparr>Fees := \<lparr>minFee = 5, maxFee = 80, feeIncrement = 5,
                                        currentFee = 15\<rparr>\<rparr>,
            demo_spend [1, 0] [] 299999055)"
proof -
  let ?tx = "demo_spend [1, 0] [0, 2, 0x30, 1, 4, 0x52, 0x21, 0x21, 0x21] 299999370"
  let ?in0 = "\<lparr>PreviousOutPoint = \<lparr>Hash = [1, 0], Index = 0\<rparr>,
               SignatureScript = [0, 2, 0x30, 1, 4, 0x52, 0x21, 0x21, 0x21],
               Sequence = 0xFFFFFFFD\<rparr>"
  let ?out0 = "\<lparr>Value = 299999370, PkScript = [0xA9, 0x14, 0x87]\<rparr>"
  have "TxIn ?tx = ?in0 # []" and "TxOut ?tx = ?out0 # []"
    by (simp_all add: demo_spend_def)
  from bumpAttestationFees_effect [OF this, of demo_env "demo_client None"]
  show ?thesis
    by (auto simp add: demo_defs GetFee_def BumpFee_def Let_def word_sless_alt)
qed

lemma not_zero_hash: "length h \<noteq> 32 \<Longrightarrow> h \<noteq> zero_hash"
  by (auto simp add: zero_hash_def)

text \<open>
  C8. On a client that holds a wallet key, \<open>GetKeyFromHash\<close> returns that key for the
  zero hash and, for every other hash, the key \<open>TweakPrivKey\<close> makes of it with the bytes
  of the hash. \<open>GetScriptFromHash\<close> returns the initial redeem script for the zero hash
  and, for every other hash on a multisig client, the redeem script \<open>CreateMultisig\<close>
  builds from the initial public keys, each tweaked with the bytes of the hash.
\<close>

theorem GetKeyFromHash_GetScriptFromHash:
  assumes "WalletPriv w = Some k"
  shows "GetKeyFromHash env w zero_hash = Inr k
       \<and> GetScriptFromHash env w zero_hash = Inr (script0 w)
       \<and> (h \<noteq> zero_hash \<and> TweakPrivKey env (Some k) (CloneBytes h) = Inr k' \<longrightarrow>
            GetKeyFromHash env w h = Inr k')
       \<and> (h \<noteq> zero_hash \<and> pubkeys w \<noteq> [] \<longrightarrow>
            GetScriptFromHash env w h
              = Inr (snd (CreateMultisig env
                       (map (\<lambda>pub. TweakPubKey env pub (CloneBytes h)) (pubkeys w))
                       (numOfSigs w))))"
  using assms
  by (simp add: GetKeyFromHash_def GetScriptFromHash_def GetNextAttestationAddr_def
      IsEqual_def Let_def split: prod.split)

theorem GetKeyFromHash_GetScriptFromHash_witness:
  "GetKeyFromHash demo_env (demo_client (Some 4)) zero_hash = Inr 4
   \<and> GetScriptFromHash demo_env (demo_client (Some 4)) zero_hash = Inr ''2kkk''
   \<and> GetKeyFromHash demo_env (demo_client (Some 4)) [1, 2] = Inr 7
   \<and> GetScriptFromHash demo_env (demo_client (Some 4)) [1, 2] = Inr ''2kkk''"
proof -
  have k: "WalletPriv (demo_client (Some 4)) = Some 4"
    by (simp add: demo_client_def)
  have z: "[1, 2] \<noteq> zero_hash"
    by (rule not_zero_hash) simp
  have t: "TweakPrivKey demo_env (Some 4) (CloneBytes [1, 2]) = Inr 7"
    by (simp add: demo_env_def CloneBytes_def)
  have p: "pubkeys (demo_client (Some 4)) \<noteq> []"
    by (simp add: demo_client_def)
  have "GetKeyFromHash demo_env (demo_client (Some 4)) zero_hash = Inr 4
      \<and> GetScriptFromHash demo_env (demo_client (Some 4)) zero_hash
          = Inr (script0 (demo_client (Some 4)))
      \<and> GetKeyFromHash demo_env (demo_client (Some 4)) [1, 2] = Inr 7
      \<and> GetScriptFromHash demo_env (demo_client (Some 4)) [1, 2]
          = Inr (snd (CreateMultisig demo_env
                   (map (\<lambda>pub. TweakPubKey demo_env pub (CloneBytes [1, 2]))
                      (pubkeys (demo_client (Some 4))))
                   (numOfSigs (demo_client (Some 4)))))"
    using GetKeyFromHash_GetScriptFromHash [OF k, of demo_env "[1, 2]" 7] z t p by blast
  moreover have "script0 (demo_client (Some 4)) = ''2kkk''"
    by (simp add: demo_client_def)
  moreover have "snd (CreateMultisig demo_env
                   (map (\<lambda>pub. TweakPubKey demo_env pub (CloneBytes [1, 2]))
                      (pubkeys (demo_client (Some 4))))
                   (numOfSigs (demo_client (Some 4)))) = ''2kkk''"
    by (simp add: demo_env_def demo_client_def)
  ultimately show ?thesis
    by simp
qed

section \<open>Attestation server: properties\<close>

text \<open>
  C10. Whatever the optional \<open>confirmed\<close> flag, when the record store reports an empty
  merkle root and no error, \<open>GetLatestAttestationCommitmentHash\<close> returns the zero hash
  with a nil error.
\<close>

theorem no_attestation_gives_zero_hash:
  assumes "getLatestAttestationMerkleRoot s (if length confirmed > 0 then hd confirmed else True)
             = Inr []"
  shows "GetLatestAttestationCommitmentHash s confirmed = Inr zero_hash"
  using assms by (cases confirmed) (simp_all add: GetLatestAttestationCommitmentHash_def Let_def)

theorem no_attestation_gives_zero_hash_witness:
  "GetLatestAttestationCommitmentHash (demo_server (\<lambda>confirmed. Inr [])) [] = Inr (replicate 32 0)
   \<and> GetLatestAttestationCommitmentHash (demo_server (\<lambda>confirmed. Inr [])) [False]
       = Inr (replicate 32 0)"
  using no_attestation_gives_zero_hash [of "demo_server (\<lambda>confirmed. Inr [])" "[]"]
    no_attestation_gives_zero_hash [of "demo_server (\<lambda>confirmed. Inr [])" "[False]"]
  by (simp add: demo_server_def zero_hash_def)

lemma setCommitments_sets:
  assumes "\<forall>c\<in>set cs. 0 \<le> ClientPosition c \<and> ClientPosition c < int (length hs)"
  shows "\<exists>hs'. setCommitments cs hs = Inr hs' \<and> length hs' = length hs
           \<and> (\<forall>p<length hs. hs' ! p =
                 (if filter (\<lambda>c. ClientPosition c = int p) cs = [] then hs ! p
                  else Commitment (last (filter (\<lambda>c. ClientPosition c = int p) cs))))"
  using assms
proof (induction cs arbitrary: hs)
  case Nil
  then show ?case by simp
next
  case (Cons c cs)
  let ?hs1 = "hs[nat (ClientPosition c) := Commitment c]"
  have "\<forall>d\<in>set cs. 0 \<le> ClientPosition d \<and> ClientPosition d < int (length ?hs1)"
    using Cons.prems by simp
  from Cons.IH [OF this] obtain hs' where
    run: "setCommitments cs ?hs1 = Inr hs'" and len: "length hs' = length hs"
    and nth: "\<forall>p<length hs. hs' ! p =
                 (if filter (\<lambda>c. ClientPosition c = int p) cs = [] then ?hs1 ! p
                  else Commitment (last (filter (\<lambda>c. ClientPosition c = int p) cs)))"
    by auto
  have c: "0 \<le> ClientPosition c" "ClientPosition c < int (length hs)"
    using Cons.prems by simp_all
  have "setCommitments (c # cs) hs = Inr hs'"
    using c run by simp
  moreover have "\<forall>p<length hs. hs' ! p =
                 (if filter (\<lambda>d. ClientPosition d = int p) (c # cs) = [] then hs ! p
                  else Commitment (last (filter (\<lambda>d. ClientPosition d = int p) (c # cs))))"
  proof (intro allI impI)
    fix p assume p: "p < length hs"
    show "hs' ! p =
                 (if filter (\<lambda>d. ClientPosition d = int p) (c # cs) = [] then hs ! p
                  else Commitment (last (filter (\<lambda>d. ClientPosition d = int p) (c # cs))))"
    proof (cases "ClientPosition c = int p")
      case True
      then have "?hs1 ! p = Commitment c" using p by simp
      then show ?thesis using nth p True by simp
    next
      case False
      then have "nat (ClientPosition c) \<noteq> p" using c by auto
      then have "?hs1 ! p = hs ! p" by simp
      then show ?thesis using nth p False by simp
    qed
  qed
  ultimately show ?case using len by blast
qed

lemma sorted_le_last: "sorted (xs :: int list) \<Longrightarrow> x \<in> set xs \<Longrightarrow> x \<le> last xs"
  by (induction xs) auto

lemma sorted_below_last:
  assumes "sorted (map ClientPosition cs)" and "c \<in> set cs"
  shows "ClientPosition c \<le> ClientPosition (last cs)"
proof -
  have ne: "cs \<noteq> []" using assms(2) by auto
  have "ClientPosition c \<in> set (map ClientPosition cs)" using assms(2) by simp
  then have "ClientPosition c \<le> last (map ClientPosition cs)"
    using assms(1) by (rule sorted_le_last [rotated])
  then show ?thesis using ne by (simp add: last_map)
qed

lemma clientCommitmentHashes_leaves:
  assumes "cs \<noteq> []" and "sorted (map ClientPosition cs)"
    and "\<forall>c\<in>set cs. 0 \<le> ClientPosition c"
  shows "\<exists>leaves. clientCommitmentHashes cs = Inr leaves
           \<and> int (length leaves) = ClientPosition (last cs) + 1
           \<and> (\<forall>p<length leaves. leaves ! p =
                 (if filter (\<lambda>c. ClientPosition c = int p) cs = [] then zero_hash
                  else Commitment (last (filter (\<lambda>c. ClientPosition c = int p) cs))))"
proof -
  let ?n = "ClientPosition (last cs) + 1"
  let ?hs = "replicate (nat ?n) zero_hash"
  have n: "0 \<le> ClientPosition (last cs)" using assms(1,3) by simp
  have "\<forall>c\<in>set cs. 0 \<le> ClientPosition c \<and> ClientPosition c < int (length ?hs)"
    using assms(3) sorted_below_last [OF assms(2)] n by fastforce
  from setCommitments_sets [OF this] obtain hs' where
    run: "setCommitments cs ?hs = Inr hs'" and len: "length hs' = length ?hs"
    and nth: "\<forall>p<length ?hs. hs' ! p =
                 (if filter (\<lambda>c. ClientPosition c = int p) cs = [] then ?hs ! p
                  else Commitment (last (filter (\<lambda>c. ClientPosition c = int p) cs)))"
    by blast
  have "clientCommitmentHashes cs = Inr hs'"
    using assms(1) n run by (simp add: clientCommitmentHashes_def Let_def)
  moreover have "int (length hs') = ?n" using len n by simp
  moreover have "\<forall>p<length hs'. hs' ! p =
                 (if filter (\<lambda>c. ClientPosition c = int p) cs = [] then zero_hash
                  else Commitment (last (filter (\<lambda>c. ClientPosition c = int p) cs)))"
    using nth len by simp
  ultimately show ?thesis by blast
qed

text \<open>
  C7. When the record store returns a non-empty list of client commitments in ascending
  order of client position (positions are not negative), \<open>GetClientCommitment\<close> builds
  a list of leaves one longer than the highest position, which holds the zero hash at
  every position no commitment reports and, at every reported position, the hash stored
  for that position (the last one in the list, should a position be reported twice), and
  returns what \<open>NewCommitment\<close> makes of that list.
\<close>

theorem GetClientCommitment_leaves:
  assumes "getClientCommitments s = Inr cs" and "cs \<noteq> []"
    and "sorted (map ClientPosition cs)" and "\<forall>c\<in>set cs. 0 \<le> ClientPosition c"
  shows "\<exists>leaves. clientCommitmentHashes cs = Inr leaves
           \<and> GetClientCommitment s
               = (case NewCommitment s leaves of
                    Inl errCommitment \<Rightarrow> Inl (ReturnedError errCommitment)
                  | Inr commitment \<Rightarrow> Inr commitment)
           \<and> int (length leaves) = ClientPosition (last cs) + 1
           \<and> (\<forall>p<length leaves. (\<forall>c\<in>set cs. ClientPosition c \<noteq> int p)
                 \<longrightarrow> leaves ! p = zero_hash)
           \<and> (\<forall>c\<in>set cs. leaves ! nat (ClientPosition c)
                 = Commitment (last (filter (\<lambda>d. ClientPosition d = ClientPosition c) cs)))
           \<and> (distinct (map ClientPosition cs)
                 \<longrightarrow> (\<forall>c\<in>set cs. leaves ! nat (ClientPosition c) = Commitment c))"
proof -
  from clientCommitmentHashes_leaves [OF assms(2,3,4)] obtain leaves where
    run: "clientCommitmentHashes cs = Inr leaves"
    and len: "int (length leaves) = ClientPosition (last cs) + 1"
    and nth: "\<forall>p<length leaves. leaves ! p =
                 (if filter (\<lambda>c. ClientPosition c = int p) cs = [] then zero_hash
                  else Commitment (last (filter (\<lambda>c. ClientPosition c = int p) cs)))"
    by blast
  have call: "GetClientCommitment s
               = (case NewCommitment s leaves of
                    Inl errCommitment \<Rightarrow> Inl (ReturnedError errCommitment)
                  | Inr commitment \<Rightarrow> Inr commitment)"
    using assms(1) run by (simp add: GetClientCommitment_def)
  have unreported: "\<forall>p<length leaves. (\<forall>c\<in>set cs. ClientPosition c \<noteq> int p)
                 \<longrightarrow> leaves ! p = zero_hash"
    using nth by (simp add: filter_empty_conv)
  have reported: "leaves ! nat (ClientPosition c)
                 = Commitment (last (filter (\<lambda>d. ClientPosition d = ClientPosition c) cs))"
    if c: "c \<in> set cs" for c
  proof -
    have lo: "0 \<le> ClientPosition c" using assms(4) c by simp
    have "ClientPosition c \<le> ClientPosition (last cs)"
      using assms(3) c by (rule sorted_below_last)
    then have "nat (ClientPosition c) < length leaves" using len lo by linarith
    moreover have "filter (\<lambda>d. ClientPosition d = ClientPosition c) cs \<noteq> []"
      using c by (auto simp add: filter_empty_conv)
    ultimately show ?thesis using nth lo by simp
  qed
  have single: "leaves ! nat (ClientPosition c) = Commitment c"
    if d: "distinct (map ClientPosition cs)" and c: "c \<in> set cs" for c
  proof -
    have "filter (\<lambda>d. ClientPosition d = ClientPosition c) cs = [c]"
      using d c
    proof (induction cs)
      case Nil
      then show ?case by simp
    next
      case (Cons x xs)
      show ?case
      proof (cases "x = c")
        case True
        then have "\<forall>y\<in>set xs. ClientPosition y \<noteq> ClientPosition c"
          using Cons.prems(1) by (auto simp add: image_iff)
        then have "filter (\<lambda>d. ClientPosition d = ClientPosition c) xs = []"
          by (simp add: filter_empty_conv)
        then show ?thesis using True by simp
      next
        case False
        then have "c \<in> set xs" using Cons.prems(2) by simp
        moreover have "ClientPosition x \<noteq> ClientPosition c"
          using Cons.prems(1) \<open>c \<in> set xs\<close> by auto
        ultimately show ?thesis using Cons.IH Cons.prems(1) by simp
      qed
    qed
    then show ?thesis using reported [OF c] by simp
  qed
  show ?thesis
    using run call len unreported reported single by blast
qed

text \<open>
  Commitments of the clients at positions 0 and 2: three leaves, the middle one the zero
  hash.
\<close>

theorem GetClientCommitment_leaves_witness:
  "GetClientCommitment (demo_server (\<lambda>confirmed. Inr []))
     = Inr [[0xA0], zero_hash, [0xA2]]"
proof -
  let ?s = "demo_server (\<lambda>confirmed. Inr [])"
  let ?cs = "[\<lparr>Commitment = [0xA0], ClientPosition = 0\<rparr>,
              \<lparr>Commitment = [0xA2], ClientPosition = 2\<rparr>]"
  have "getClientCommitments ?s = Inr ?cs" "?cs \<noteq> []" "sorted (map ClientPosition ?cs)"
    "\<forall>c\<in>set ?cs. 0 \<le> ClientPosition c"
    by (simp_all add: demo_server_def)
  from GetClientCommitment_leaves [OF this] obtain leaves where
    "clientCommitmentHashes ?cs = Inr leaves"
    and "GetClientCommitment ?s
               = (case NewCommitment ?s leaves of
                    Inl errCommitment \<Rightarrow> Inl (ReturnedError errCommitment)
                  | Inr commitment \<Rightarrow> Inr commitment)"
    by blast
  then show ?thesis
    by (auto simp add: clientCommitmentHashes_def demo_server_def Let_def eval_nat_numeral)
qed

subsection \<open>The subchain walk\<close>

lemma verify_genesis:
  "HashString env txid = txid0 w \<Longrightarrow> verifyTxOnSubchain env w txid = Some (Inr True)"
  by (subst verifyTxOnSubchain.simps) simp

lemma verify_fetch_failed:
  "HashString env txid \<noteq> txid0 w \<Longrightarrow> GetRawTransaction env txid = Inl err
     \<Longrightarrow> verifyTxOnSubchain env w txid = Some (Inr False)"
  by (subst verifyTxOnSubchain.simps) simp

lemma verify_previous:
  "HashString env txid \<noteq> txid0 w \<Longrightarrow> GetRawTransaction env txid = Inr txraw
     \<Longrightarrow> TxIn txraw = in0 # ins
     \<Longrightarrow> verifyTxOnSubchain env w txid
           = verifyTxOnSubchain env w (Hash (PreviousOutPoint in0))"
  by (subst verifyTxOnSubchain.simps) simp

lemma verify_no_input:
  "HashString env txid \<noteq> txid0 w \<Longrightarrow> GetRawTransaction env txid = Inr txraw
     \<Longrightarrow> TxIn txraw = []
     \<Longrightarrow> verifyTxOnSubchain env w txid = Some (Inl (Panic IndexOutOfRange))"
  by (subst verifyTxOnSubchain.simps) simp

lemma on_subchain_verify:
  "on_subchain env w txid \<Longrightarrow> verifyTxOnSubchain env w txid = Some (Inr True)"
  by (induction rule: on_subchain.induct) (simp_all add: verify_genesis verify_previous)

lemma walk_fails_verify:
  "walk_fails env w txid \<Longrightarrow> verifyTxOnSubchain env w txid = Some (Inr False)"
  by (induction rule: walk_fails.induct) (simp_all add: verify_fetch_failed verify_previous)

lemma verify_result:
  assumes "verifyTxOnSubchain env w txid = Some r"
  shows "(r = Inr True \<longrightarrow> on_subchain env w txid)
       \<and> (r = Inr False \<longrightarrow> walk_fails env w txid)"
proof (rule verifyTxOnSubchain.raw_induct
    [where P = "\<lambda>env w txid r. (r = Inr True \<longrightarrow> on_subchain env w txid)
                  \<and> (r = Inr False \<longrightarrow> walk_fails env w txid)", OF _ assms])
  fix verify :: "('a, 'b, 'c, 'd) collaborators \<Rightarrow> ('a, 'b) AttestClient \<Rightarrow> hash
                   \<Rightarrow> (failure + bool) option"
    and env w txid r
  assume IH: "\<And>env w txid r. verify env w txid = Some r \<Longrightarrow>
                (r = Inr True \<longrightarrow> on_subchain env w txid)
                \<and> (r = Inr False \<longrightarrow> walk_fails env w txid)"
    and body: "(if HashString env txid = txid0 w then Some (Inr True)
                else case GetRawTransaction env txid of
                       Inl err \<Rightarrow> Some (Inr False)
                     | Inr txraw \<Rightarrow>
                        (case TxIn txraw of
                           [] \<Rightarrow> Some (Inl (Panic IndexOutOfRange))
                         | in0 # ins \<Rightarrow> verify env w (Hash (PreviousOutPoint in0))))
               = Some r"
  show "(r = Inr True \<longrightarrow> on_subchain env w txid)
       \<and> (r = Inr False \<longrightarrow> walk_fails env w txid)"
  proof (cases "HashString env txid = txid0 w")
    case True
    then show ?thesis using body by (auto intro: on_subchain.genesis)
  next
    case notgen: False
    show ?thesis
    proof (cases "GetRawTransaction env txid")
      case (Inl err)
      then show ?thesis
        using body notgen by (auto intro: walk_fails.fetch_failed)
    next
      case (Inr txraw)
      show ?thesis
      proof (cases "TxIn txraw")
        case Nil
        then show ?thesis using body notgen Inr by auto
      next
        case (Cons in0 ins)
        then have "verify env w (Hash (PreviousOutPoint in0)) = Some r"
          using body notgen Inr by simp
        from IH [OF this] show ?thesis
          using notgen Inr Cons
          by (auto intro: on_subchain.previous walk_fails.previous_fails)
      qed
    qed
  qed
qed

lemma verify_returns:
  assumes "wf (prev_link env)"
    and "\<forall>txid txraw. GetRawTransaction env txid = Inr txraw \<longrightarrow> TxIn txraw \<noteq> []"
  shows "\<exists>b. verifyTxOnSubchain env w txid = Some (Inr b)"
  using assms(1)
proof (induction txid rule: wf_induct_rule)
  case (less txid)
  show ?case
  proof (cases "HashString env txid = txid0 w")
    case True
    then show ?thesis by (auto simp add: verify_genesis)
  next
    case notgen: False
    show ?thesis
    proof (cases "GetRawTransaction env txid")
      case (Inl err)
      then show ?thesis using notgen by (auto simp add: verify_fetch_failed)
    next
      case (Inr txraw)
      then obtain in0 ins where ins: "TxIn txraw = in0 # ins"
        using assms(2) by (cases "TxIn txraw") auto
      then have "(Hash (PreviousOutPoint in0), txid) \<in> prev_link env"
        using Inr by (auto simp add: prev_link_def)
      from less.IH [OF this] show ?thesis
        using notgen Inr ins by (simp add: verify_previous)
    qed
  qed
qed

lemma findLastUnspentLoop_first:
  assumes "\<forall>u\<in>set pre. \<exists>h. NewHashFromStr env (TxID u) = Inr h \<and> walk_fails env w h"
    and "NewHashFromStr env (TxID vout) = Inr hv" and "on_subchain env w hv"
  shows "findLastUnspentLoop env w (pre @ vout # post) = Some (Inr (True, vout))"
  using assms(1)
proof (induction pre)
  case Nil
  show ?case using assms(2,3) by (simp add: on_subchain_verify)
next
  case (Cons u pre)
  then obtain h where "NewHashFromStr env (TxID u) = Inr h" and "walk_fails env w h"
    by auto
  then show ?case using Cons by (simp add: walk_fails_verify)
qed

lemma findLastUnspentLoop_none:
  assumes "\<forall>u\<in>set unspent. \<exists>h. NewHashFromStr env (TxID u) = Inr h \<and> walk_fails env w h"
  shows "findLastUnspentLoop env w unspent = Some (Inr (False, empty_ListUnspentResult))"
  using assms
proof (induction unspent)
  case Nil
  show ?case by simp
next
  case (Cons u rest)
  then obtain h where "NewHashFromStr env (TxID u) = Inr h" and "walk_fails env w h"
    by auto
  then show ?case using Cons by (simp add: walk_fails_verify)
qed

text \<open>
  C9. \<open>verifyTxOnSubchain\<close> returns true exactly when the walk from the txid along
  the previous-outpoint txids of the first inputs reaches the genesis txid, and false
  exactly when the walk ends at a transaction that cannot be fetched; where the
  history is well-founded and every fetched transaction has an input, it returns.
  \<open>findLastUnspent\<close> returns the first listed unspent output whose txid walks back to
  genesis, when the walk of every output listed before it returns false; and it
  returns false with the empty result and a nil error when the walk of every listed
  output returns false.
\<close>

theorem subchain_walk:
  "(verifyTxOnSubchain env w txid = Some (Inr True) \<longleftrightarrow> on_subchain env w txid)
   \<and> (verifyTxOnSubchain env w txid = Some (Inr False) \<longleftrightarrow> walk_fails env w txid)
   \<and> (wf (prev_link env)
        \<and> (\<forall>t txraw. GetRawTransaction env t = Inr txraw \<longrightarrow> TxIn txraw \<noteq> [])
      \<longrightarrow> (\<exists>b. verifyTxOnSubchain env w txid = Some (Inr b)))
   \<and> (ListUnspent env = Inr (pre @ vout # post)
        \<and> (\<forall>u\<in>set pre. \<exists>h. NewHashFromStr env (TxID u) = Inr h \<and> walk_fails env w h)
        \<and> NewHashFromStr env (TxID vout) = Inr hv \<and> on_subchain env w hv
      \<longrightarrow> findLastUnspent env w = Some (Inr (True, vout)))
   \<and> (ListUnspent env = Inr unspent
        \<and> (\<forall>u\<in>set unspent. \<exists>h. NewHashFromStr env (TxID u) = Inr h \<and> walk_fails env w h)
      \<longrightarrow> findLastUnspent env w = Some (Inr (False, empty_ListUnspentResult)))"
proof (intro conjI impI)
  show "verifyTxOnSubchain env w txid = Some (Inr True) \<longleftrightarrow> on_subchain env w txid"
    using verify_result [of env w txid "Inr True"] on_subchain_verify [of env w txid] by blast
  show "verifyTxOnSubchain env w txid = Some (Inr False) \<longleftrightarrow> walk_fails env w txid"
    using verify_result [of env w txid "Inr False"] walk_fails_verify [of env w txid] by blast
next
  assume "wf (prev_link env)
        \<and> (\<forall>t txraw. GetRawTransaction env t = Inr txraw \<longrightarrow> TxIn txraw \<noteq> [])"
  then show "\<exists>b. verifyTxOnSubchain env w txid = Some (Inr b)"
    using verify_returns [of env w txid] by blast
next
  assume a: "ListUnspent env = Inr (pre @ vout # post)
        \<and> (\<forall>u\<in>set pre. \<exists>h. NewHashFromStr env (TxID u) = Inr h \<and> walk_fails env w h)
        \<and> NewHashFromStr env (TxID vout) = Inr hv \<and> on_subchain env w hv"
  then have "findLastUnspentLoop env w (pre @ vout # post) = Some (Inr (True, vout))"
    using findLastUnspentLoop_first [of pre env w vout hv post] by blast
  then show "findLastUnspent env w = Some (Inr (True, vout))"
    using a by (simp add: findLastUnspent_def)
next
  assume a: "ListUnspent env = Inr unspent
        \<and> (\<forall>u\<in>set unspent. \<exists>h. NewHashFromStr env (TxID u) = Inr h \<and> walk_fails env w h)"
  then have "findLastUnspentLoop env w unspent = Some (Inr (False, empty_ListUnspentResult))"
    using findLastUnspentLoop_none [of unspent env w] by blast
  then show "findLastUnspent env w = Some (Inr (False, empty_ListUnspentResult))"
    using a by (simp add: findLastUnspent_def)
qed

lemma demo_on_subchain: "on_subchain demo_env (demo_client None) [1, 0]"
proof -
  let ?in00 = "\<lparr>PreviousOutPoint = \<lparr>Hash = [0, 0], Index = 0\<rparr>, SignatureScript = [0],
                Sequence = 0xFFFFFFFD\<rparr>"
  let ?in01 = "\<lparr>PreviousOutPoint = \<lparr>Hash = [0, 1], Index = 0\<rparr>, SignatureScript = [0],
                Sequence = 0xFFFFFFFD\<rparr>"
  have "on_subchain demo_env (demo_client None) [0, 0]"
    by (rule on_subchain.genesis) (simp add: demo_defs)
  then have g: "on_subchain demo_env (demo_client None) (Hash (PreviousOutPoint ?in00))"
    by simp
  have "HashString demo_env [0, 1] \<noteq> txid0 (demo_client None)"
    and "GetRawTransaction demo_env [0, 1] = Inr (demo_spend [0, 0] [0] 5000)"
    and "TxIn (demo_spend [0, 0] [0] 5000) = ?in00 # []"
    by (simp_all add: demo_defs)
  then have "on_subchain demo_env (demo_client None) [0, 1]"
    using g by (rule on_subchain.previous)
  then have a: "on_subchain demo_env (demo_client None) (Hash (PreviousOutPoint ?in01))"
    by simp
  have "HashString demo_env [1, 0] \<noteq> txid0 (demo_client None)"
    and "GetRawTransaction demo_env [1, 0] = Inr (demo_spend [0, 1] [0] 4000)"
    and "TxIn (demo_spend [0, 1] [0] 4000) = ?in01 # []"
    by (simp_all add: demo_defs)
  then show ?thesis
    using a by (rule on_subchain.previous)
qed

lemma demo_walk_fails: "walk_fails demo_env (demo_client None) [1, 1]"
  by (rule walk_fails.fetch_failed) (simp_all add: demo_defs)

text \<open>
  The node lists the outputs of \<open>11\<close>, which it cannot fetch, and of \<open>10\<close>, which walks
  over \<open>01\<close> to the genesis \<open>00\<close>: the second one is found. When it lists the first one
  only, none is found.
\<close>

theorem subchain_walk_witness:
  "verifyTxOnSubchain demo_env (demo_client None) [1, 0] = Some (Inr True)
   \<and> verifyTxOnSubchain demo_env (demo_client None) [1, 1] = Some (Inr False)
   \<and> findLastUnspent demo_env (demo_client None)
        = Some (Inr (True, \<lparr>TxID = ''10'', Vout = 0, Amount = 3\<rparr>))
   \<and> findLastUnspent (demo_env\<lparr>ListUnspent := Inr [\<lparr>TxID = ''11'', Vout = 0, Amount = 7\<rparr>]\<rparr>)
        (demo_client None)
        = Some (Inr (False, \<lparr>TxID = [], Vout = 0, Amount = 0\<rparr>))"
proof -
  let ?w = "demo_client None"
  let ?u11 = "\<lparr>TxID = ''11'', Vout = 0, Amount = 7 :: nat\<rparr>"
  let ?u10 = "\<lparr>TxID = ''10'', Vout = 0, Amount = 3 :: nat\<rparr>"
  let ?env1 = "demo_env\<lparr>ListUnspent := Inr [?u11]\<rparr>"
  have 1: "verifyTxOnSubchain demo_env ?w [1, 0] = Some (Inr True)"
    using subchain_walk [of demo_env ?w "[1, 0]"] demo_on_subchain by blast
  have 2: "verifyTxOnSubchain demo_env ?w [1, 1] = Some (Inr False)"
    using subchain_walk [of demo_env ?w "[1, 1]"] demo_walk_fails by blast
  have l: "ListUnspent demo_env = Inr ([?u11] @ ?u10 # [])"
    by (simp add: demo_env_def)
  have p11: "NewHashFromStr demo_env (TxID ?u11) = Inr [1, 1]"
    by (simp add: demo_defs)
  have p10: "NewHashFromStr demo_env (TxID ?u10) = Inr [1, 0]"
    by (simp add: demo_defs)
  have 3: "findLastUnspent demo_env ?w = Some (Inr (True, ?u10))"
    using subchain_walk [of demo_env ?w _ "[?u11]" ?u10 "[]" "[1, 0]"]
      l p11 p10 demo_on_subchain demo_walk_fails by simp
  have f: "walk_fails ?env1 ?w [1, 1]"
    by (rule walk_fails.fetch_failed) (simp_all add: demo_defs)
  have l1: "ListUnspent ?env1 = Inr [?u11]"
    by simp
  have p1: "NewHashFromStr ?env1 (TxID ?u11) = Inr [1, 1]"
    by (simp add: demo_defs)
  have 4: "findLastUnspent ?env1 ?w = Some (Inr (False, empty_ListUnspentResult))"
    using subchain_walk [of ?env1 ?w _ _ _ _ _ "[?u11]"] l1 p1 f by simp
  show ?thesis
    using 1 2 3 4 by (simp add: empty_ListUnspentResult_def)
qed

subsection \<open>Assembling the signatures\<close>

lemma slice_to_within:
  "0 \<le> sint n \<Longrightarrow> sint n \<le> int (length xs) \<Longrightarrow>
   slice_to xs spare n = Inr (take (nat (sint n)) xs)"
  by (simp add: slice_to_def)

lemma slice_to_beyond:
  assumes "int (length xs) < sint n"
  shows "slice_to xs spare n = Inl (Panic SliceBoundsOutOfRange)
       \<or> (\<exists>extra. extra \<noteq> [] \<and> slice_to xs spare n = Inr (xs @ extra))"
proof (cases "int (length xs + length spare) < sint n")
  case True
  then show ?thesis by (simp add: slice_to_def)
next
  case False
  let ?extra = "take (nat (sint n) - length xs) spare"
  have "nat (sint n) - length xs > 0" using assms by linarith
  moreover have "spare \<noteq> []" using assms False by auto
  ultimately have "?extra \<noteq> []" by (cases spare) (simp_all add: take_Cons')
  moreover have "slice_to xs spare n = Inr (xs @ ?extra)"
    using assms False by (simp add: slice_to_def)
  ultimately show ?thesis by blast
qed

lemma sint_word_of_length:
  assumes "n < 2 ^ 63"
  shows "sint (word_of_nat n :: go_int) = int n"
proof -
  have "int n < 2 ^ 63" using assms by (metis of_nat_less_iff of_nat_numeral of_nat_power)
  then show ?thesis
    by (simp add: signed_of_nat signed_take_bit_int_eq_self)
qed

text \<open>
  The two branches of the multisig case. Without a parsed local signature the peer
  signatures are counted first: enough of them give the script of the first
  \<open>numOfSigs\<close>, fewer leave the transaction as it is.
\<close>

lemma combineSigs_peers_enough:
  assumes "redeemScript \<noteq> []" and "TxIn tx = in0 # ins"
    and "ParseScriptSig env (SignatureScript in0) = (mySigs, script)"
    and "\<not> (length mySigs > 0 \<and> length script > 0 \<and> EncodeToString env script = redeemScript)"
    and "0 \<le> sint (numOfSigs w)" and "sint (numOfSigs w) \<le> int (length sigs)"
    and "length sigs < 2 ^ 63"
  shows "combineSigs env w tx redeemScript sigs
           = Inr (tx\<lparr>TxIn := in0\<lparr>SignatureScript :=
                    CreateScriptSig env (take (nat (sint (numOfSigs w))) sigs)
                      (DecodeString env redeemScript)\<rparr> # ins\<rparr>)"
proof -
  have "sint (word_of_nat (length sigs) :: go_int) = int (length sigs)"
    using assms(7) by (rule sint_word_of_length)
  then have "numOfSigs w \<le>s word_of_nat (length sigs)"
    using assms(6) by (simp add: word_sle_eq)
  then show ?thesis
    using assms
    by (auto simp add: combineSigs_def slice_to_within set_SignatureScript0_def Let_def)
qed

lemma combineSigs_peers_too_few:
  assumes "redeemScript \<noteq> []" and "TxIn tx = in0 # ins"
    and "ParseScriptSig env (SignatureScript in0) = (mySigs, script)"
    and "\<not> (length mySigs > 0 \<and> length script > 0 \<and> EncodeToString env script = redeemScript)"
    and "int (length sigs) < sint (numOfSigs w)" and "length sigs < 2 ^ 63"
  shows "combineSigs env w tx redeemScript sigs = Inr tx"
proof -
  have "sint (word_of_nat (length sigs) :: go_int) = int (length sigs)"
    using assms(6) by (rule sint_word_of_length)
  then have "\<not> numOfSigs w \<le>s word_of_nat (length sigs)"
    using assms(5) by (simp add: word_sle_eq)
  then show ?thesis
    using assms by (auto simp add: combineSigs_def Let_def)
qed

text \<open>
  With a parsed local signature the combined list is sliced without a count: enough
  signatures give the script of the first \<open>numOfSigs\<close>, the local one first.
\<close>

lemma combineSigs_local_enough:
  assumes "redeemScript \<noteq> []" and "TxIn tx = in0 # ins"
    and "ParseScriptSig env (SignatureScript in0) = (mySigs, script)"
    and "length mySigs > 0" and "length script > 0"
    and "EncodeToString env script = redeemScript"
    and "0 \<le> sint (numOfSigs w)" and "sint (numOfSigs w) \<le> int (length (mySigs @ sigs))"
  shows "combineSigs env w tx redeemScript sigs
           = Inr (tx\<lparr>TxIn := in0\<lparr>SignatureScript :=
                    CreateScriptSig env (take (nat (sint (numOfSigs w))) (mySigs @ sigs))
                      script\<rparr> # ins\<rparr>)"
  using assms
  by (simp add: combineSigs_def slice_to_within set_SignatureScript0_def Let_def)

text \<open>
  Fewer signatures make the slice expression panic, or, where the backing array is
  longer than the list, build a script of \<open>numOfSigs\<close> entries of which the last are
  no signatures at all. The partially signed transaction is not returned.
\<close>

lemma combineSigs_local_too_few:
  assumes "redeemScript \<noteq> []" and "TxIn tx = in0 # ins"
    and "ParseScriptSig env (SignatureScript in0) = (mySigs, script)"
    and "length mySigs > 0" and "length script > 0"
    and "EncodeToString env script = redeemScript"
    and "int (length (mySigs @ sigs)) < sint (numOfSigs w)"
  shows "combineSigs env w tx redeemScript sigs = Inl (Panic SliceBoundsOutOfRange)
       \<or> (\<exists>extra. extra \<noteq> [] \<and> combineSigs env w tx redeemScript sigs
             = Inr (tx\<lparr>TxIn := in0\<lparr>SignatureScript :=
                      CreateScriptSig env ((mySigs @ sigs) @ extra) script\<rparr> # ins\<rparr>))"
proof -
  from slice_to_beyond [OF assms(7), of "appendSpare env mySigs sigs"]
  show ?thesis
  proof
    assume "slice_to (mySigs @ sigs) (appendSpare env mySigs sigs) (numOfSigs w)
              = Inl (Panic SliceBoundsOutOfRange)"
    then show ?thesis
      using assms by (simp add: combineSigs_def Let_def)
  next
    assume "\<exists>extra. extra \<noteq> [] \<and>
              slice_to (mySigs @ sigs) (appendSpare env mySigs sigs) (numOfSigs w)
                = Inr ((mySigs @ sigs) @ extra)"
    then obtain extra where "extra \<noteq> []"
      and "slice_to (mySigs @ sigs) (appendSpare env mySigs sigs) (numOfSigs w)
                = Inr ((mySigs @ sigs) @ extra)"
      by blast
    then show ?thesis
      using assms by (auto simp add: combineSigs_def set_SignatureScript0_def Let_def)
  qed
qed

lemma demo_signed:
  "SignTransaction demo_env (demo_client (Some 4)) zero_hash (demo_spend [1, 0] [] 299999370)
     = Inr (demo_spend [1, 0] [0, 2, 0x30, 4, 4, 0x52, 0x21, 0x21, 0x21] 299999370, ''2kkk'')"
  by (simp add: SignTransaction_def GetKeyFromHash_def GetScriptFromHash_def IsEqual_def
      demo_defs SerializeBytes_def Let_def)

lemma demo_parsed:
  "ParseScriptSig demo_env [0, 2, 0x30, 4, 4, 0x52, 0x21, 0x21, 0x21]
     = ([[0x30, 4]], [0x52, 0x21, 0x21, 0x21])"
  by (simp add: demo_defs UnserializeBytes_def UnserializeLoop.simps Let_def)

lemma demo_script: "GetScriptFromHash demo_env (demo_client key) zero_hash = Inr ''2kkk''"
  by (simp add: GetScriptFromHash_def IsEqual_def demo_client_def)

lemma demo_combine_alone:
  "combineSigs demo_env (demo_client (Some 4))
       (demo_spend [1, 0] [0, 2, 0x30, 4, 4, 0x52, 0x21, 0x21, 0x21] 299999370) ''2kkk'' []
     = Inl (Panic SliceBoundsOutOfRange)"
  by (simp add: combineSigs_def demo_spend_def demo_parsed slice_to_def)
    (simp add: demo_env_def demo_client_def demo_EncodeToString_def)

lemma demo_combine_two:
  "combineSigs demo_env (demo_client (Some 4))
       (demo_spend [1, 0] [0, 2, 0x30, 4, 4, 0x52, 0x21, 0x21, 0x21] 299999370) ''2kkk''
       [[0x30, 9]]
     = Inr (demo_spend [1, 0] [0, 2, 0x30, 4, 2, 0x30, 9, 4, 0x52, 0x21, 0x21, 0x21] 299999370)"
  by (simp add: combineSigs_def demo_spend_def demo_parsed slice_to_def
      set_SignatureScript0_def)
    (simp add: demo_env_def demo_client_def demo_EncodeToString_def demo_CreateScriptSig_def
      SerializeBytes_def)

lemma demo_combine_none:
  "combineSigs demo_env (demo_client None) (demo_spend [1, 0] [] 299999370) ''2kkk'' []
     = Inr (demo_spend [1, 0] [] 299999370)"
  by (simp add: combineSigs_def demo_defs word_sle_eq)

text \<open>
  C1. \<open>signAttestation\<close> puts the local signature before the peer signatures and, with
  at least \<open>numOfSigs\<close> signatures, builds the script of the first \<open>numOfSigs\<close> of
  them; with fewer it is to return the partially signed transaction without error. On a
  2-of-3 client that holds a wallet key and has no peer signature yet, the local
  signature is the only one; the combined list is sliced to two all the same and the
  call panics. The client without a wallet key, whose branch counts the signatures
  first, returns the transaction as it is; and the signing client with one peer
  signature builds the script of the local and the peer signature.
\<close>

theorem signAttestation_local_signature_alone:
  "signAttestation demo_env (demo_client (Some 4)) (demo_spend [1, 0] [] 299999370) [] zero_hash
     = Inl (Panic SliceBoundsOutOfRange)
   \<and> signAttestation demo_env (demo_client None) (demo_spend [1, 0] [] 299999370) [] zero_hash
     = Inr (demo_spend [1, 0] [] 299999370)
   \<and> signAttestation demo_env (demo_client (Some 4)) (demo_spend [1, 0] [] 299999370)
        [[0x30, 9]] zero_hash
     = Inr (demo_spend [1, 0] [0, 2, 0x30, 4, 2, 0x30, 9, 4, 0x52, 0x21, 0x21, 0x21] 299999370)"
proof -
  have signer: "WalletPriv (demo_client (Some 4)) \<noteq> None"
    and watcher: "WalletPriv (demo_client None) = None"
    by (simp_all add: demo_client_def)
  show ?thesis
    unfolding signAttestation_def demo_script
    by (simp add: signer watcher demo_signed demo_combine_alone demo_combine_two
        demo_combine_none)
qed

end
